theory Spec2Isabelle
  imports Main "HOL-Library.Word" "HOL-Library.Sublist" "HOL-Library.AList"
begin

section \<open>Bytes, Python errors and the helpers of the standard library\<close>

text \<open>
  The two scripts \<^verbatim>\<open>scripts/mock_amf.py\<close> and \<^verbatim>\<open>scripts/sctp_to_tcp_bridge.py\<close>
  work on Python \<^verbatim>\<open>bytes\<close> (lists of integers in 0..255), Python integers and
  \<^verbatim>\<open>str\<close> (lists of Unicode code points). An exception is a value of
  \<open>py_error\<close>; a call that may raise returns \<open>py_error + 'a\<close>.
\<close>

type_synonym byte = "8 word"
type_synonym bytes = "byte list"
type_synonym py_str = "nat list"

datatype py_error =
  IndexError | StructError | ValueError | UnicodeEncodeError | SocketTimeout | OSError

definition bind_err :: "py_error + 'a \<Rightarrow> ('a \<Rightarrow> py_error + 'b) \<Rightarrow> py_error + 'b" where
  "bind_err m f = (case m of Inl e \<Rightarrow> Inl e | Inr x \<Rightarrow> f x)"

text \<open>\<^verbatim>\<open>data[i]\<close> for a non-negative index: the byte as an integer, or IndexError.\<close>

definition getitem :: "bytes \<Rightarrow> nat \<Rightarrow> py_error + int" where
  "getitem data i = (if i < length data then Inr (uint (data ! i)) else Inl IndexError)"

text \<open>\<^verbatim>\<open>data[a:b]\<close> for non-negative bounds: never raises, clips at the end.\<close>

definition slice :: "bytes \<Rightarrow> nat \<Rightarrow> nat \<Rightarrow> bytes" where
  "slice data a b = take (b - a) (drop a data)"

text \<open>
  \<^verbatim>\<open>struct.unpack('>H', b)[0]\<close>: the big-endian unsigned 16-bit value of exactly
  two bytes; \<^verbatim>\<open>struct.error\<close> for any other size.
\<close>

definition unpack_H :: "bytes \<Rightarrow> py_error + int" where
  "unpack_H b = (case b of [hi, lo] \<Rightarrow> Inr (uint hi * 256 + uint lo) | _ \<Rightarrow> Inl StructError)"

text \<open>
  \<^verbatim>\<open>bytearray([...])\<close> of a list of integers: ValueError
  (``byte must be in range(0, 256)'') as soon as one of them is outside 0..255.
\<close>

definition bytearray :: "int list \<Rightarrow> py_error + bytes" where
  "bytearray xs =
     (if list_all (\<lambda>x. 0 \<le> x \<and> x < 256) xs then Inr (map word_of_int xs) else Inl ValueError)"

text \<open>
  \<^verbatim>\<open>str.encode('utf-8')\<close>, code point by code point. A surrogate (U+D800..U+DFFF)
  raises UnicodeEncodeError; a Python \<^verbatim>\<open>str\<close> holds no code point above U+10FFFF.
\<close>

definition utf8_cp :: "nat \<Rightarrow> py_error + bytes" where
  "utf8_cp c =
     (if c < 0x80 then Inr [of_nat c]
      else if c < 0x800 then Inr [of_nat (0xC0 + c div 0x40), of_nat (0x80 + c mod 0x40)]
      else if 0xD800 \<le> c \<and> c < 0xE000 then Inl UnicodeEncodeError
      else if c < 0x10000 then
        Inr [of_nat (0xE0 + c div 0x1000), of_nat (0x80 + c div 0x40 mod 0x40),
             of_nat (0x80 + c mod 0x40)]
      else if c < 0x110000 then
        Inr [of_nat (0xF0 + c div 0x40000), of_nat (0x80 + c div 0x1000 mod 0x40),
             of_nat (0x80 + c div 0x40 mod 0x40), of_nat (0x80 + c mod 0x40)]
      else Inl UnicodeEncodeError)"

fun encode_utf8 :: "py_str \<Rightarrow> py_error + bytes" where
  "encode_utf8 [] = Inr []"
| "encode_utf8 (c # cs) =
     bind_err (utf8_cp c) (\<lambda>b. bind_err (encode_utf8 cs) (\<lambda>bs. Inr (b @ bs)))"

text \<open>
  The spec's ``ASCII encoding of the cause string'' (\<^verbatim>\<open>str.encode('ascii')\<close>): one
  byte per character, defined only when every code point is below 128.
\<close>

definition encode_ascii :: "py_str \<Rightarrow> py_error + bytes" where
  "encode_ascii s = (if list_all (\<lambda>c. c < 128) s then Inr (map of_nat s) else Inl UnicodeEncodeError)"

text \<open>\<^verbatim>\<open>str(n)\<close> of a non-negative integer, as \<^verbatim>\<open>f"{addr[1]}"\<close> formats a port.\<close>

fun str_nat :: "nat \<Rightarrow> string" where
  "str_nat n =
     (if n < 10 then [''0123456789'' ! n] else str_nat (n div 10) @ [''0123456789'' ! (n mod 10)])"

declare str_nat.simps [simp del]

section \<open>The message codec: class NGAPMessage of scripts/mock\_amf.py\<close>

definition NG_SETUP_REQUEST :: int where "NG_SETUP_REQUEST = 21"
definition NG_SETUP_RESPONSE :: int where "NG_SETUP_RESPONSE = 21"
definition NG_SETUP_FAILURE :: int where "NG_SETUP_FAILURE = 21"

text \<open>The dictionary that \<^verbatim>\<open>decode_header\<close> returns; its key \<^verbatim>\<open>'length'\<close> is \<open>length_hdr\<close>.\<close>

record header =
  procedure_code :: int
  criticality :: int
  length_hdr :: int

text \<open>
  \<^verbatim>\<open>decode_header\<close> (lines 24-34). \<open>Inr None\<close> is the Python \<^verbatim>\<open>None\<close> of the
  short input; \<open>Inl\<close> would be an exception of an index or of \<^verbatim>\<open>struct.unpack\<close>.
\<close>

definition decode_header :: "bytes \<Rightarrow> py_error + header option" where
  "decode_header data =
     (if length data < 4 then Inr None
      else
        bind_err (getitem data 0) (\<lambda>pc.
        bind_err (getitem data 1) (\<lambda>cr.
        bind_err (unpack_H (slice data 2 4)) (\<lambda>ln.
        Inr (Some \<lparr>procedure_code = pc, criticality = cr, length_hdr = ln\<rparr>)))))"

text \<open>\<^verbatim>\<open>create_ng_setup_response\<close> (lines 36-63).\<close>

definition create_ng_setup_response :: "py_error + bytes" where
  "create_ng_setup_response =
     bytearray
       [0x20, 0x15,
        0x00, 0x2e,
        0x00, 0x00, 0x04,
        0x00, 0x01,
        0x00, 0x0a,
        0x00, 0x08, 0x6d, 0x6f, 0x63, 0x6b, 0x2d, 0x61, 0x6d, 0x66,
        0x00, 0x60,
        0x00, 0x0e,
        0x00, 0x0c,
        0x00, 0x00, 0x01,
        0x01,
        0x02,
        0x00, 0x01,
        0x00,
        0x00, 0x56,
        0x40, 0x01,
        0xff]"

text \<open>\<^verbatim>\<open>create_ng_setup_failure\<close> (lines 65-78).\<close>

definition create_ng_setup_failure :: "py_str \<Rightarrow> py_error + bytes" where
  "create_ng_setup_failure cause =
     bind_err (encode_utf8 cause) (\<lambda>cause_bytes.
     bind_err
       (bytearray
          [0x40, 0x15,
           0x00, int (length cause_bytes) + 8,
           0x00, 0x00, 0x01,
           0x00, 0x0f,
           0x40, int (length cause_bytes) + 1,
           0x00])
       (\<lambda>response. Inr (response @ cause_bytes)))"

text \<open>The default argument \<^verbatim>\<open>cause="Unknown PLMN"\<close>.\<close>

definition default_cause :: py_str where
  "default_cause = map of_char ''Unknown PLMN''"

section \<open>Sockets and what the environment answers\<close>

text \<open>
  A socket object, with a log of what was done on it. \<open>timeout\<close> is the value set by
  \<^verbatim>\<open>settimeout\<close> in seconds (the sources use 1.0 and 5.0); \<open>None\<close> is Python's
  blocking mode, in which \<^verbatim>\<open>recv\<close> and \<^verbatim>\<open>accept\<close> wait without bound. \<open>waits\<close>
  records the timeout in force at each \<^verbatim>\<open>recv\<close> or \<^verbatim>\<open>accept\<close> call, \<open>rcvd\<close> what
  each \<^verbatim>\<open>recv\<close> returned, \<open>sent\<close> the argument of each \<^verbatim>\<open>send\<close> that returned.
\<close>

record sock =
  timeout :: "nat option"
  closed :: bool
  sent :: "bytes list"
  rcvd :: "bytes list"
  waits :: "nat option list"

text \<open>
  A socket as \<^verbatim>\<open>socket.socket()\<close> or \<^verbatim>\<open>accept()\<close> returns it: neither script calls
  \<^verbatim>\<open>setdefaulttimeout\<close>, so it is in blocking mode.
\<close>

definition new_sock :: sock where
  "new_sock = \<lparr>timeout = None, closed = False, sent = [], rcvd = [], waits = []\<rparr>"

text \<open>
  The outcome of one call is an input of the model: what the peer and the operating
  system answer. \<open>RecvData d\<close> offers the bytes \<open>d\<close> (\<open>[]\<close>: the peer has closed).
\<close>

datatype recv_result = RecvData bytes | RecvTimeout | RecvError
datatype send_result = SendOk | SendTimeout | SendError

definition settimeout :: "sock \<Rightarrow> nat \<Rightarrow> sock" where
  "settimeout s secs = s\<lparr>timeout := Some secs\<rparr>"

text \<open>\<^verbatim>\<open>s.recv(bufsize)\<close>: at most \<open>bufsize\<close> of the offered bytes are returned.\<close>

definition sock_recv :: "sock \<Rightarrow> nat \<Rightarrow> recv_result \<Rightarrow> sock \<times> (py_error + bytes)" where
  "sock_recv s bufsize r =
     (let s' = s\<lparr>waits := waits s @ [timeout s]\<rparr> in
      case r of
        RecvData d \<Rightarrow> (s'\<lparr>rcvd := rcvd s' @ [take bufsize d]\<rparr>, Inr (take bufsize d))
      | RecvTimeout \<Rightarrow> (s', Inl SocketTimeout)
      | RecvError \<Rightarrow> (s', Inl OSError))"

definition sock_send :: "sock \<Rightarrow> bytes \<Rightarrow> send_result \<Rightarrow> py_error + sock" where
  "sock_send s b r =
     (case r of
        SendOk \<Rightarrow> Inr (s\<lparr>sent := sent s @ [b]\<rparr>)
      | SendTimeout \<Rightarrow> Inl SocketTimeout
      | SendError \<Rightarrow> Inl OSError)"

definition sock_close :: "sock \<Rightarrow> bool \<Rightarrow> py_error + sock" where
  "sock_close s ok = (if ok then Inr (s\<lparr>closed := True\<rparr>) else Inl OSError)"

text \<open>How a statement of a loop body ends, and how far a handler has got.\<close>

datatype ctl = Continue | Break | Raise py_error
datatype outcome = Pending | Finished | Crashed py_error

section \<open>class MockAMF of scripts/mock\_amf.py\<close>

text \<open>
  \<open>connections\<close> is the dictionary from connection identifier to socket object, in
  insertion order; a socket object is a number and its state is \<open>socks\<close> of it.
  The lock only makes each access to \<open>connections\<close> atomic.
\<close>

record amf =
  amf_addr :: string
  amf_port :: nat
  running :: bool
  connections :: "(string \<times> nat) list"
  socks :: "nat \<Rightarrow> sock"

definition MockAMF_init :: "string \<Rightarrow> nat \<Rightarrow> amf" where
  "MockAMF_init a p =
     \<lparr>amf_addr = a, amf_port = p, running = False, connections = [], socks = (\<lambda>_. new_sock)\<rparr>"

text \<open>\<^verbatim>\<open>conn_id = f"{addr[0]}:{addr[1]}"\<close> (line 114, and line 49 of the bridge).\<close>

definition conn_id_of :: "string \<times> nat \<Rightarrow> string" where
  "conn_id_of addr = fst addr @ '':'' @ str_nat (snd addr)"

text \<open>
  One turn of a handler's loop as the environment decides it: the value of
  \<^verbatim>\<open>self.running\<close> read at the loop head (another thread writes it), the outcome of
  the \<^verbatim>\<open>recv\<close> and the outcome of the \<^verbatim>\<open>send\<close>, if the turn calls one.
\<close>

record tick =
  t_running :: bool
  t_recv :: recv_result
  t_send :: send_result

text \<open>\<^verbatim>\<open>handle_ng_setup_request\<close> (lines 93-110); \<open>sr\<close> is the outcome of its \<^verbatim>\<open>conn.send\<close>.\<close>

definition handle_ng_setup_request :: "sock \<Rightarrow> bytes \<Rightarrow> send_result \<Rightarrow> py_error + (sock \<times> bool)" where
  "handle_ng_setup_request conn data sr =
     (if length data > 4 \<and> data ! 0 = 0x00 \<and> data ! 1 = 0x15 then
        bind_err create_ng_setup_response (\<lambda>response.
        bind_err (sock_send conn response sr) (\<lambda>conn'. Inr (conn', True)))
      else
        bind_err (create_ng_setup_failure default_cause) (\<lambda>response.
        bind_err (sock_send conn response sr) (\<lambda>conn'. Inr (conn', False))))"

text \<open>
  The statements of the inner \<^verbatim>\<open>try\<close> (lines 128-145); \<open>c\<close> is \<^verbatim>\<open>ng_setup_complete\<close>.
  An exception leaves it as \<open>Raise\<close>.
\<close>

definition ngap_try :: "tick \<Rightarrow> bool \<Rightarrow> sock \<Rightarrow> ctl \<times> bool \<times> sock" where
  "ngap_try t c conn =
     (case sock_recv conn 4096 (t_recv t) of
        (conn1, Inl e) \<Rightarrow> (Raise e, c, conn1)
      | (conn1, Inr data) \<Rightarrow>
          if data = [] then (Break, c, conn1)
          else if \<not> c \<and> length data > 4 then
            (case decode_header data of
               Inl e \<Rightarrow> (Raise e, c, conn1)
             | Inr None \<Rightarrow> (Continue, c, conn1)
             | Inr (Some header) \<Rightarrow>
                 if procedure_code header = NG_SETUP_REQUEST then
                   (case handle_ng_setup_request conn1 data (t_send t) of
                      Inl e \<Rightarrow> (Raise e, c, conn1)
                    | Inr (conn2, c') \<Rightarrow> (Continue, c', conn2))
                 else (Continue, c, conn1))
          else (Continue, c, conn1))"

text \<open>The keepalive of line 151.\<close>

definition keepalive :: bytes where
  "keepalive = [0x00, 0x00, 0x00, 0x00]"

text \<open>
  The body of the \<^verbatim>\<open>while\<close> (lines 124-154): the timeout is set, the \<^verbatim>\<open>try\<close> runs,
  \<^verbatim>\<open>socket.timeout\<close> sends the keepalive once the setup is complete (an exception of
  that send leaves the loop for the outer handler), any other exception breaks.
\<close>

definition ngap_iteration :: "tick \<Rightarrow> bool \<Rightarrow> sock \<Rightarrow> ctl \<times> bool \<times> sock" where
  "ngap_iteration t c conn =
     (case ngap_try t c (settimeout conn 5) of
        (Raise e, c1, conn1) \<Rightarrow>
          if e = SocketTimeout then
            (if c1 then
               (case sock_send conn1 keepalive (t_send t) of
                  Inl e' \<Rightarrow> (Raise e', c1, conn1)
                | Inr conn2 \<Rightarrow> (Continue, c1, conn2))
             else (Continue, c1, conn1))
          else (Break, c1, conn1)
      | r \<Rightarrow> r)"

text \<open>
  \<^verbatim>\<open>while self.running\<close> (line 123) over the turns the environment supplies; \<open>Pending\<close>
  when they are used up with the handler still in its loop.
\<close>

fun ngap_loop :: "tick list \<Rightarrow> bool \<Rightarrow> sock \<Rightarrow> outcome \<times> bool \<times> sock" where
  "ngap_loop [] c conn = (Pending, c, conn)"
| "ngap_loop (t # ts) c conn =
     (if \<not> t_running t then (Finished, c, conn)
      else
        (case ngap_iteration t c conn of
           (Continue, c', conn') \<Rightarrow> ngap_loop ts c' conn'
         | (_, c', conn') \<Rightarrow> (Finished, c', conn')))"

text \<open>The two accesses to the registry, each under the lock (lines 117-118, 159-161).\<close>

definition connections_add :: "amf \<Rightarrow> string \<Rightarrow> nat \<Rightarrow> amf" where
  "connections_add a conn_id conn = a\<lparr>connections := AList.update conn_id conn (connections a)\<rparr>"

definition connections_del :: "amf \<Rightarrow> string \<Rightarrow> amf" where
  "connections_del a conn_id = a\<lparr>connections := AList.delete conn_id (connections a)\<rparr>"

text \<open>
  \<^verbatim>\<open>handle_ngap_connection\<close> (lines 112-163) for the socket object \<open>conn\<close>; \<open>close_ok\<close>
  tells whether the \<^verbatim>\<open>conn.close()\<close> of the \<^verbatim>\<open>finally\<close> returns.
\<close>

definition handle_ngap_connection ::
    "amf \<Rightarrow> nat \<Rightarrow> string \<times> nat \<Rightarrow> tick list \<Rightarrow> bool \<Rightarrow> outcome \<times> amf" where
  "handle_ngap_connection a conn addr ticks close_ok =
     (let conn_id = conn_id_of addr;
          a1 = connections_add a conn_id conn
      in case ngap_loop ticks False (socks a1 conn) of
           (Pending, c, s) \<Rightarrow> (Pending, a1\<lparr>socks := (socks a1)(conn := s)\<rparr>)
         | (_, c, s) \<Rightarrow>
             (let a2 = connections_del (a1\<lparr>socks := (socks a1)(conn := s)\<rparr>) conn_id
              in case sock_close s close_ok of
                   Inl e \<Rightarrow> (Crashed e, a2)
                 | Inr s' \<Rightarrow> (Finished, a2\<lparr>socks := (socks a2)(conn := s')\<rparr>)))"

text \<open>
  The accept loop (lines 179-196; lines 154-171 of the bridge are the same loop with
  the other handler as the thread's target). A turn is the value of \<^verbatim>\<open>self.running\<close>
  at the loop head and the outcome of \<^verbatim>\<open>accept\<close>; the result lists the arguments of
  the threads started, in order.
\<close>

datatype accept_result = Accepted nat "string \<times> nat" | AcceptTimeout | AcceptError

record poll =
  p_running :: bool
  p_accept :: accept_result

fun accept_loop :: "poll list \<Rightarrow> sock \<Rightarrow> outcome \<times> (nat \<times> string \<times> nat) list \<times> sock" where
  "accept_loop [] lsock = (Pending, [], lsock)"
| "accept_loop (p # ps) lsock =
     (if \<not> p_running p then (Finished, [], lsock)
      else
        (let l1 = settimeout lsock 1;
             l2 = l1\<lparr>waits := waits l1 @ [timeout l1]\<rparr>
         in case p_accept p of
              Accepted conn addr \<Rightarrow>
                (case accept_loop ps l2 of (out, started, l3) \<Rightarrow> (out, (conn, addr) # started, l3))
            | AcceptTimeout \<Rightarrow> accept_loop ps l2
            | AcceptError \<Rightarrow> accept_loop ps l2))"

text \<open>
  \<^verbatim>\<open>MockAMF.start\<close> (lines 165-202); \<open>bind_ok\<close> tells whether \<^verbatim>\<open>bind\<close> and
  \<^verbatim>\<open>listen\<close> return. The listening socket is closed in the \<^verbatim>\<open>finally\<close>.
\<close>

definition MockAMF_start ::
    "amf \<Rightarrow> bool \<Rightarrow> poll list \<Rightarrow> amf \<times> outcome \<times> (nat \<times> string \<times> nat) list \<times> sock" where
  "MockAMF_start a bind_ok polls =
     (let a1 = a\<lparr>running := True\<rparr> in
      if \<not> bind_ok then (a1, Finished, [], new_sock\<lparr>closed := True\<rparr>)
      else
        (case accept_loop polls new_sock of
           (Pending, started, l) \<Rightarrow> (a1, Pending, started, l)
         | (out, started, l) \<Rightarrow> (a1, out, started, l\<lparr>closed := True\<rparr>)))"

text \<open>
  \<^verbatim>\<open>MockAMF.stop\<close> (lines 204-216); \<open>close_ok conn\<close> tells whether \<^verbatim>\<open>conn.close()\<close>
  returns. A close that raises is passed over by the bare \<^verbatim>\<open>except\<close>.
\<close>

definition MockAMF_stop :: "amf \<Rightarrow> (nat \<Rightarrow> bool) \<Rightarrow> amf" where
  "MockAMF_stop a close_ok =
     (let a1 = a\<lparr>running := False\<rparr>;
          a2 = fold (\<lambda>(conn_id, conn) st.
                 case sock_close (socks st conn) (close_ok conn) of
                   Inl e \<Rightarrow> st
                 | Inr s' \<Rightarrow> st\<lparr>socks := (socks st)(conn := s')\<rparr>)
               (connections a1) a1
      in a2\<lparr>connections := []\<rparr>)"

text \<open>
  The condition under which line 140 is reached for a first message (lines 137-139,
  with \<^verbatim>\<open>ng_setup_complete\<close> still false).
\<close>

definition setup_gate :: "bytes \<Rightarrow> bool" where
  "setup_gate data =
     (4 < length data \<and>
      (case decode_header data of
         Inr (Some header) \<Rightarrow> procedure_code header = NG_SETUP_REQUEST
       | _ \<Rightarrow> False))"

section \<open>class SCTPBridge of scripts/sctp\_to\_tcp\_bridge.py\<close>

text \<open>
  The fields that \<^verbatim>\<open>__init__\<close> sets (lines 18-25): the four addresses, the running
  flag and the dictionary \<^verbatim>\<open>self.connections\<close>.
\<close>

record bridge =
  tcp_addr :: string
  tcp_port :: nat
  sctp_addr :: string
  sctp_port :: nat
  b_running :: bool
  b_connections :: "(string \<times> nat) list"

definition SCTPBridge_init :: "string \<Rightarrow> nat \<Rightarrow> string \<Rightarrow> nat \<Rightarrow> bridge" where
  "SCTPBridge_init ta tp sa sp =
     \<lparr>tcp_addr = ta, tcp_port = tp, sctp_addr = sa, sctp_port = sp,
      b_running = False, b_connections = []\<rparr>"

text \<open>\<^verbatim>\<open>create_mock_ng_setup_response\<close> (lines 128-131).\<close>

definition create_mock_ng_setup_response :: bytes where
  "create_mock_ng_setup_response = [0x20, 0x15, 0x00, 0x20] @ replicate 32 0x00"

text \<open>
  What \<^verbatim>\<open>select.select([tcp_conn, sctp_sock], [], [tcp_conn, sctp_sock], 1.0)\<close>
  answers: whether each socket is in the readable list and in the exceptional list,
  or an exception.
\<close>

datatype select_result = Selected bool bool bool bool | SelectError

text \<open>
  One wake of the bridging loop as the environment decides it. A \<^verbatim>\<open>recv\<close> on one
  socket is followed by the \<^verbatim>\<open>send\<close> on the other.
\<close>

record wake =
  w_running :: bool
  w_select :: select_result
  w_tcp_recv :: recv_result
  w_sctp_send :: send_result
  w_sctp_recv :: recv_result
  w_tcp_send :: send_result

record link =
  tcp :: sock
  sctp :: sock

text \<open>
  One of the two blocks of lines 66-80: read up to 4096 bytes from \<open>src\<close>, break on an
  empty read, send the bytes to \<open>dst\<close>. The result is the pair \<open>(src, dst)\<close> after it.
\<close>

definition forward :: "sock \<Rightarrow> sock \<Rightarrow> recv_result \<Rightarrow> send_result \<Rightarrow> ctl \<times> sock \<times> sock" where
  "forward src dst rr sr =
     (case sock_recv src 4096 rr of
        (src', Inl e) \<Rightarrow> (Raise e, src', dst)
      | (src', Inr data) \<Rightarrow>
          if data = [] then (Break, src', dst)
          else
            (case sock_send dst data sr of
               Inl e \<Rightarrow> (Raise e, src', dst)
             | Inr dst' \<Rightarrow> (Continue, src', dst')))"

text \<open>The body of the \<^verbatim>\<open>while\<close> of the bridge (lines 61-84).\<close>

definition bridge_wake :: "wake \<Rightarrow> link \<Rightarrow> ctl \<times> link" where
  "bridge_wake w l =
     (case w_select w of
        SelectError \<Rightarrow> (Raise OSError, l)
      | Selected tcp_readable sctp_readable tcp_exceptional sctp_exceptional \<Rightarrow>
          (case (if tcp_readable then forward (tcp l) (sctp l) (w_tcp_recv w) (w_sctp_send w)
                 else (Continue, tcp l, sctp l)) of
             (Continue, t1, s1) \<Rightarrow>
               (case (if sctp_readable then forward s1 t1 (w_sctp_recv w) (w_tcp_send w)
                      else (Continue, s1, t1)) of
                  (Continue, s2, t2) \<Rightarrow>
                    (if tcp_exceptional \<or> sctp_exceptional then Break else Continue,
                     \<lparr>tcp = t2, sctp = s2\<rparr>)
                | (k, s2, t2) \<Rightarrow> (k, \<lparr>tcp = t2, sctp = s2\<rparr>))
           | (k, t1, s1) \<Rightarrow> (k, \<lparr>tcp = t1, sctp = s1\<rparr>)))"

text \<open>\<^verbatim>\<open>while self.running\<close> (line 60); any exception ends it at line 86.\<close>

fun bridge_loop :: "wake list \<Rightarrow> link \<Rightarrow> outcome \<times> link" where
  "bridge_loop [] l = (Pending, l)"
| "bridge_loop (w # ws) l =
     (if \<not> w_running w then (Finished, l)
      else
        (case bridge_wake w l of
           (Continue, l') \<Rightarrow> bridge_loop ws l'
         | (_, l') \<Rightarrow> (Finished, l')))"

text \<open>The inner loop of \<^verbatim>\<open>handle_mock_amf\<close> (lines 114-123).\<close>

fun mock_loop :: "tick list \<Rightarrow> sock \<Rightarrow> outcome \<times> sock" where
  "mock_loop [] conn = (Pending, conn)"
| "mock_loop (t # ts) conn =
     (if \<not> t_running t then (Finished, conn)
      else
        (case sock_recv conn 4096 (t_recv t) of
           (conn1, Inr data) \<Rightarrow> if data = [] then (Finished, conn1) else mock_loop ts conn1
         | (conn1, Inl e) \<Rightarrow> if e = SocketTimeout then mock_loop ts conn1 else (Finished, conn1)))"

text \<open>
  \<^verbatim>\<open>handle_mock_amf\<close> (lines 99-126): \<open>first\<close> is the outcome of the \<^verbatim>\<open>recv\<close> of
  line 103, \<open>reply\<close> that of the \<^verbatim>\<open>send\<close> of line 110.
\<close>

definition handle_mock_amf :: "sock \<Rightarrow> recv_result \<Rightarrow> send_result \<Rightarrow> tick list \<Rightarrow> outcome \<times> sock" where
  "handle_mock_amf conn first reply ticks =
     (case sock_recv conn 4096 first of
        (conn1, Inl e) \<Rightarrow> (Finished, conn1)
      | (conn1, Inr data) \<Rightarrow>
          if data \<noteq> [] then
            (case sock_send conn1 create_mock_ng_setup_response reply of
               Inl e \<Rightarrow> (Finished, conn1)
             | Inr conn2 \<Rightarrow> mock_loop ticks conn2)
          else (Finished, conn1))"

text \<open>
  Everything the environment decides for one run of \<^verbatim>\<open>handle_tcp_to_sctp\<close>: what
  \<^verbatim>\<open>try_sctp_connection\<close> returns (lines 31-45: the connected socket, or \<^verbatim>\<open>None\<close>),
  the wakes of the bridging loop, the answers for \<^verbatim>\<open>handle_mock_amf\<close>, and whether
  each \<^verbatim>\<open>close\<close> returns.
\<close>

record script =
  sc_probe :: "sock option"
  sc_wakes :: "wake list"
  sc_first_recv :: recv_result
  sc_reply_send :: send_result
  sc_ticks :: "tick list"
  sc_sctp_close_ok :: bool
  sc_tcp_close_ok :: bool

text \<open>
  \<^verbatim>\<open>handle_tcp_to_sctp\<close> (lines 47-97). The result is the bridge object, how far the
  handler got, the inbound socket and the outbound one if there is one.
\<close>

definition handle_tcp_to_sctp ::
    "bridge \<Rightarrow> sock \<Rightarrow> string \<times> nat \<Rightarrow> script \<Rightarrow> bridge \<times> outcome \<times> sock \<times> sock option" where
  "handle_tcp_to_sctp b tcp_conn addr sc =
     (case sc_probe sc of
        Some sctp_sock \<Rightarrow>
          (case bridge_loop (sc_wakes sc) \<lparr>tcp = tcp_conn, sctp = sctp_sock\<rparr> of
             (Pending, l) \<Rightarrow> (b, Pending, tcp l, Some (sctp l))
           | (_, l) \<Rightarrow>
               (case sock_close (sctp l) (sc_sctp_close_ok sc) of
                  Inl e \<Rightarrow> (b, Crashed e, tcp l, Some (sctp l))
                | Inr s' \<Rightarrow>
                    (case sock_close (tcp l) (sc_tcp_close_ok sc) of
                       Inl e \<Rightarrow> (b, Crashed e, tcp l, Some s')
                     | Inr t' \<Rightarrow> (b, Finished, t', Some s'))))
      | None \<Rightarrow>
          (case handle_mock_amf tcp_conn (sc_first_recv sc) (sc_reply_send sc) (sc_ticks sc) of
             (Pending, c) \<Rightarrow> (b, Pending, c, None)
           | (_, c) \<Rightarrow>
               (case sock_close c (sc_tcp_close_ok sc) of
                  Inl e \<Rightarrow> (b, Crashed e, c, None)
                | Inr c' \<Rightarrow> (b, Finished, c', None))))"

text \<open>
  \<^verbatim>\<open>SCTPBridge.start\<close> (lines 133-177), with the accept loop above, and
  \<^verbatim>\<open>SCTPBridge.stop\<close> (lines 179-182).
\<close>

definition SCTPBridge_start ::
    "bridge \<Rightarrow> bool \<Rightarrow> poll list \<Rightarrow> bridge \<times> outcome \<times> (nat \<times> string \<times> nat) list \<times> sock" where
  "SCTPBridge_start b bind_ok polls =
     (let b1 = b\<lparr>b_running := True\<rparr> in
      if \<not> bind_ok then (b1, Finished, [], new_sock\<lparr>closed := True\<rparr>)
      else
        (case accept_loop polls new_sock of
           (Pending, started, l) \<Rightarrow> (b1, Pending, started, l)
         | (out, started, l) \<Rightarrow> (b1, out, started, l\<lparr>closed := True\<rparr>)))"

definition SCTPBridge_stop :: "bridge \<Rightarrow> bridge" where
  "SCTPBridge_stop b = b\<lparr>b_running := False\<rparr>"

text \<open>
  What it means that the bytes read from \<open>src\<close> are the bytes written to \<open>dst\<close>: the
  sends on \<open>dst\<close> are the non-empty reads of \<open>src\<close>, in order (\<open>relayed\<close>); when a
  send has raised, all but the last read (\<open>relayed_upto\<close>).
\<close>

definition relayed :: "sock \<Rightarrow> sock \<Rightarrow> bool" where
  "relayed src dst = (sent dst = filter (\<lambda>d. d \<noteq> []) (rcvd src))"

definition relayed_upto :: "sock \<Rightarrow> sock \<Rightarrow> bool" where
  "relayed_upto src dst =
     (prefix (sent dst) (filter (\<lambda>d. d \<noteq> []) (rcvd src)) \<and>
      length (filter (\<lambda>d. d \<noteq> []) (rcvd src)) \<le> length (sent dst) + 1)"

definition chunks_bounded :: "sock \<Rightarrow> bool" where
  "chunks_bounded s = list_all (\<lambda>d. length d \<le> 4096) (rcvd s)"

text \<open>
  The two directions of a link together, with every read within one receive buffer:
  \<open>bridged\<close> while the loop runs, \<open>bridged_upto\<close> once it has ended.
\<close>

definition bridged :: "link \<Rightarrow> bool" where
  "bridged l =
     (relayed (tcp l) (sctp l) \<and> relayed (sctp l) (tcp l) \<and>
      chunks_bounded (tcp l) \<and> chunks_bounded (sctp l))"

definition bridged_upto :: "link \<Rightarrow> bool" where
  "bridged_upto l =
     (relayed_upto (tcp l) (sctp l) \<and> relayed_upto (sctp l) (tcp l) \<and>
      chunks_bounded (tcp l) \<and> chunks_bounded (sctp l))"

section \<open>Properties of the message codec\<close>

lemma uint_length_byte: "n \<le> 247 \<Longrightarrow> uint (word_of_int (int n + 1) :: byte) = int n + 1"
  by (simp add: uint_word_of_int take_bit_eq_mod del: of_int_add of_int_of_nat_eq)

lemma encode_utf8_ascii:
  "list_all (\<lambda>c. c < 128) s \<Longrightarrow> encode_utf8 s = Inr (map of_nat s)"
  by (induction s) (simp_all add: utf8_cp_def bind_err_def)

lemma encode_utf8_replicate:
  "c < 128 \<Longrightarrow> encode_utf8 (replicate n c) = Inr (replicate n (of_nat c))"
  by (simp add: encode_utf8_ascii list_all_iff)

lemma default_cause_bytes: "encode_utf8 default_cause = Inr (map of_char ''Unknown PLMN'')"
  by (simp add: default_cause_def utf8_cp_def bind_err_def)

lemma create_ng_setup_failure_fits:
  assumes "encode_utf8 cause = Inr cb" and "length cb \<le> 247"
  shows "create_ng_setup_failure cause =
           Inr ([0x40, 0x15, 0x00, word_of_int (int (length cb) + 8), 0x00, 0x00, 0x01, 0x00, 0x0f,
                 0x40, word_of_int (int (length cb) + 1), 0x00] @ cb)"
  using assms by (simp add: create_ng_setup_failure_def bind_err_def bytearray_def)

lemma create_ng_setup_failure_overflow:
  assumes "encode_utf8 cause = Inr cb" and "247 < length cb"
  shows "create_ng_setup_failure cause = Inl ValueError"
  using assms by (simp add: create_ng_setup_failure_def bind_err_def bytearray_def)

lemma decode_header_short: "length data < 4 \<Longrightarrow> decode_header data = Inr None"
  by (simp add: decode_header_def)

lemma decode_header_long:
  assumes "4 \<le> length data"
  shows "decode_header data =
     Inr (Some \<lparr>procedure_code = uint (data ! 0), criticality = uint (data ! 1),
                length_hdr = uint (data ! 2) * 256 + uint (data ! 3)\<rparr>)"
proof -
  from assms obtain a b c d rest where "data = a # b # c # d # rest"
    by (cases data; simp; rename_tac x xs; case_tac xs; simp; rename_tac y ys; case_tac ys;
        simp; rename_tac z zs; case_tac zs; simp)
  then show ?thesis
    by (simp add: decode_header_def getitem_def slice_def unpack_H_def bind_err_def)
qed

lemma create_ng_setup_response_bytes:
  "create_ng_setup_response =
     Inr [0x20, 0x15, 0x00, 0x2e, 0x00, 0x00, 0x04, 0x00, 0x01, 0x00, 0x0a,
          0x00, 0x08, 0x6d, 0x6f, 0x63, 0x6b, 0x2d, 0x61, 0x6d, 0x66,
          0x00, 0x60, 0x00, 0x0e, 0x00, 0x0c, 0x00, 0x00, 0x01, 0x01, 0x02, 0x00, 0x01, 0x00,
          0x00, 0x56, 0x40, 0x01, 0xff]"
  by (simp add: create_ng_setup_response_def bytearray_def)

text \<open>
  Claim C2. \<^verbatim>\<open>decode_header\<close> returns \<^verbatim>\<open>None\<close> for every input shorter than 4 bytes.
  For every input of at least 4 bytes it returns, without raising, the header whose
  procedure code is byte 0, whose criticality is byte 1 and whose length is the
  big-endian 16-bit value of bytes 2-3, whatever the size of the rest of the input:
  the declared length is not compared with it.
\<close>

theorem decode_header_spec:
  "(length data < 4 \<longrightarrow> decode_header data = Inr None) \<and>
   (4 \<le> length data \<longrightarrow>
      decode_header data =
        Inr (Some \<lparr>procedure_code = uint (data ! 0), criticality = uint (data ! 1),
                   length_hdr = uint (data ! 2) * 256 + uint (data ! 3)\<rparr>))"
  using decode_header_short decode_header_long by blast

text \<open>
  A 3-byte input, and a 4-byte input that declares 65535 bytes of payload and has none.
\<close>

theorem decode_header_spec_witness:
  "decode_header [21, 0, 0] = Inr None \<and>
   decode_header [21, 0, 0xff, 0xff] =
     Inr (Some \<lparr>procedure_code = 21, criticality = 0, length_hdr = 65535\<rparr>)"
  using decode_header_spec [of "[21, 0, 0]"] decode_header_spec [of "[21, 0, 0xff, 0xff]"]
  by simp

text \<open>
  Claim C3, as amended. For every cause string whose UTF-8 encoding is at most 247
  bytes, \<^verbatim>\<open>create_ng_setup_failure\<close> returns a byte sequence: the twelve fields of
  the template, the message length \<open>len + 8\<close> and the cause length \<open>len + 1\<close> among
  them, are all accepted by \<^verbatim>\<open>bytearray\<close>. For every longer encoding the message
  length is above 255 and the call raises ValueError.
\<close>

theorem setup_failure_bound:
  assumes "encode_utf8 cause = Inr cause_bytes"
  shows "(length cause_bytes \<le> 247 \<longrightarrow>
            (\<exists>response.
               bytearray [0x40, 0x15, 0x00, int (length cause_bytes) + 8, 0x00, 0x00, 0x01,
                          0x00, 0x0f, 0x40, int (length cause_bytes) + 1, 0x00] = Inr response \<and>
               create_ng_setup_failure cause = Inr (response @ cause_bytes))) \<and>
         (247 < length cause_bytes \<longrightarrow> create_ng_setup_failure cause = Inl ValueError)"
  using assms by (simp add: create_ng_setup_failure_def bind_err_def bytearray_def)

theorem setup_failure_bound_witness:
  "encode_utf8 default_cause = Inr (map of_char ''Unknown PLMN'') \<and>
   create_ng_setup_failure default_cause =
     Inr ([0x40, 0x15, 0x00, 0x14, 0x00, 0x00, 0x01, 0x00, 0x0f, 0x40, 0x0d, 0x00] @
          map of_char ''Unknown PLMN'')"
  using setup_failure_bound [OF default_cause_bytes] default_cause_bytes
  by (simp add: bytearray_def)

text \<open>
  The claim as stated allows 254 bytes. A cause of 248 letters \<^verbatim>\<open>A\<close> has an encoding
  of 248 bytes, the message length field is 256, and the call raises.
\<close>

theorem setup_failure_bound_counterexample:
  "encode_utf8 (replicate 248 65) = Inr (replicate 248 65) \<and>
   length (replicate 248 (65 :: byte)) \<le> 254 \<and>
   create_ng_setup_failure (replicate 248 65) = Inl ValueError"
  using encode_utf8_replicate [of 65 248]
        create_ng_setup_failure_overflow [of "replicate 248 65" "replicate 248 65"]
  by simp

text \<open>
  Claim C4, as amended. For every ASCII cause string of at most 247 characters,
  \<^verbatim>\<open>create_ng_setup_failure\<close> returns a byte sequence whose cause-length byte (offset
  10) is \<open>len(cause) + 1\<close> and whose bytes from offset 12 on are the ASCII encoding of
  the cause.
\<close>

theorem setup_failure_layout:
  assumes "encode_ascii cause = Inr a" and "length cause \<le> 247"
  shows "\<exists>bs. create_ng_setup_failure cause = Inr bs \<and>
              uint (bs ! 10) = int (length cause) + 1 \<and> drop 12 bs = a"
proof -
  from assms(1) have asc: "list_all (\<lambda>c. c < 128) cause" and a: "a = map of_nat cause"
    by (simp_all add: encode_ascii_def split: if_splits)
  have enc: "encode_utf8 cause = Inr a"
    using asc a by (simp add: encode_utf8_ascii)
  have len: "length a \<le> 247"
    using a assms(2) by simp
  have "uint (word_of_int (int (length a) + 1) :: byte) = int (length cause) + 1"
    using uint_length_byte [OF len] a by simp
  then show ?thesis
    using create_ng_setup_failure_fits [OF enc len] by simp
qed

text \<open>The one-character cause \<^verbatim>\<open>"X"\<close>: the length byte is 2 and the last byte is 0x58.\<close>

theorem setup_failure_layout_witness:
  "encode_ascii (map of_char ''X'') = Inr [0x58] \<and>
   (\<exists>bs. create_ng_setup_failure (map of_char ''X'') = Inr bs \<and>
         uint (bs ! 10) = 2 \<and> drop 12 bs = [0x58])"
  using setup_failure_layout [of "map of_char ''X''" "[0x58]"]
  by (simp add: encode_ascii_def)

text \<open>
  Under the length precondition of the claim as stated (at most 254 bytes), a cause of
  250 letters \<^verbatim>\<open>B\<close> has an ASCII encoding and no byte sequence is returned for it.
\<close>

theorem setup_failure_layout_counterexample:
  "encode_ascii (replicate 250 66) = Inr (replicate 250 66) \<and>
   length (replicate 250 (66 :: nat)) \<le> 254 \<and>
   create_ng_setup_failure (replicate 250 66) = Inl ValueError"
  using encode_utf8_replicate [of 66 250]
        create_ng_setup_failure_overflow [of "replicate 250 66" "replicate 250 66"]
  by (simp add: encode_ascii_def list_all_iff)

text \<open>
  Claim C10. \<^verbatim>\<open>create_ng_setup_response\<close> takes no input and returns one fixed
  sequence of 40 bytes. Its length field (bytes 2-3, big-endian, as \<^verbatim>\<open>decode_header\<close>
  reads it) is 46, and 36 bytes follow that field: the declared length is not the
  size of the remaining payload.
\<close>

theorem setup_response_template:
  "\<exists>r h. create_ng_setup_response = Inr r \<and> length r = 40 \<and>
          decode_header r = Inr (Some h) \<and> length_hdr h = 46 \<and>
          length (drop 4 r) = 36 \<and> length_hdr h \<noteq> int (length (drop 4 r))"
  by (simp add: create_ng_setup_response_bytes decode_header_long)

section \<open>Properties of MockAMF\<close>

lemma stop_step_keeps:
  "connections (case sock_close s ok of Inl e \<Rightarrow> st | Inr s' \<Rightarrow> st\<lparr>socks := (socks st)(conn := s')\<rparr>)
     = connections st \<and>
   running (case sock_close s ok of Inl e \<Rightarrow> st | Inr s' \<Rightarrow> st\<lparr>socks := (socks st)(conn := s')\<rparr>)
     = running st"
  by (cases "sock_close s ok") simp_all

lemma stop_fold_keeps:
  "connections (fold (\<lambda>(conn_id, conn) st.
                 case sock_close (socks st conn) (close_ok conn) of
                   Inl e \<Rightarrow> st
                 | Inr s' \<Rightarrow> st\<lparr>socks := (socks st)(conn := s')\<rparr>) xs a) = connections a \<and>
   running (fold (\<lambda>(conn_id, conn) st.
                 case sock_close (socks st conn) (close_ok conn) of
                   Inl e \<Rightarrow> st
                 | Inr s' \<Rightarrow> st\<lparr>socks := (socks st)(conn := s')\<rparr>) xs a) = running a"
proof (induction xs arbitrary: a)
  case Nil
  show ?case by simp
next
  case (Cons x xs)
  obtain conn_id conn where x: "x = (conn_id, conn)" by (cases x)
  show ?case
    unfolding x fold_Cons comp_apply prod.case
    by (simp only: Cons.IH stop_step_keeps)
qed

text \<open>
  Claim C9. \<^verbatim>\<open>MockAMF.stop\<close> leaves the registry empty and the running flag cleared,
  whichever of the \<^verbatim>\<open>close\<close> calls raise: a close that raises is passed over and the
  dictionary is cleared after the loop in every case.
\<close>

theorem stop_clears_registry:
  "connections (MockAMF_stop a close_ok) = [] \<and> \<not> running (MockAMF_stop a close_ok)"
  by (simp add: MockAMF_stop_def Let_def stop_fold_keeps)

text \<open>Two tracked connections; the close of the first one raises.\<close>

theorem stop_clears_registry_witness:
  "connections
     (MockAMF_stop
        ((MockAMF_init ''127.0.0.4'' 38412)\<lparr>running := True, connections := [(''10.0.0.1:5000'', 1), (''10.0.0.2:5001'', 2)]\<rparr>)
        (\<lambda>conn. conn \<noteq> 1)) = [] \<and>
   \<not> closed (socks (MockAMF_stop
        ((MockAMF_init ''127.0.0.4'' 38412)\<lparr>running := True, connections := [(''10.0.0.1:5000'', 1), (''10.0.0.2:5001'', 2)]\<rparr>)
        (\<lambda>conn. conn \<noteq> 1)) 1) \<and>
   closed (socks (MockAMF_stop
        ((MockAMF_init ''127.0.0.4'' 38412)\<lparr>running := True, connections := [(''10.0.0.1:5000'', 1), (''10.0.0.2:5001'', 2)]\<rparr>)
        (\<lambda>conn. conn \<noteq> 1)) 2)"
  using stop_clears_registry [of "(MockAMF_init ''127.0.0.4'' 38412)\<lparr>running := True, connections := [(''10.0.0.1:5000'', 1), (''10.0.0.2:5001'', 2)]\<rparr>" "\<lambda>conn. conn \<noteq> 1"]
  by (simp add: MockAMF_stop_def MockAMF_init_def sock_close_def new_sock_def)

lemma setup_gate_iff:
  "setup_gate data \<longleftrightarrow> 4 < length data \<and> uint (data ! 0) = 21"
  by (auto simp: setup_gate_def decode_header_long NG_SETUP_REQUEST_def)

lemma recv_data:
  "sock_recv s n (RecvData d) =
     (s\<lparr>waits := waits s @ [timeout s], rcvd := rcvd s @ [take n d]\<rparr>, Inr (take n d))"
  by (simp add: sock_recv_def Let_def)

lemma handle_ng_setup_request_ok:
  "handle_ng_setup_request conn data SendOk =
     (if 4 < length data \<and> data ! 0 = 0x00 \<and> data ! 1 = 0x15
      then Inr (conn\<lparr>sent := sent conn @ [projr create_ng_setup_response]\<rparr>, True)
      else Inr (conn\<lparr>sent := sent conn @ [projr (create_ng_setup_failure default_cause)]\<rparr>, False))"
  by (simp add: handle_ng_setup_request_def create_ng_setup_response_bytes
      create_ng_setup_failure_fits [OF default_cause_bytes] bind_err_def sock_send_def)

lemma ngap_try_data:
  assumes "sock_recv conn 4096 (t_recv t) = (conn1, Inr d)" and "d \<noteq> []"
  shows "ngap_try t False conn =
     (if setup_gate d then
        (case handle_ng_setup_request conn1 d (t_send t) of
           Inl e \<Rightarrow> (Raise e, False, conn1)
         | Inr (conn2, c') \<Rightarrow> (Continue, c', conn2))
      else (Continue, False, conn1))"
proof (cases "4 < length d")
  case False
  then show ?thesis using assms
    by (simp add: ngap_try_def setup_gate_def)
next
  case True
  then have "4 \<le> length d" by simp
  from decode_header_long [OF this] True assms show ?thesis
    by (simp add: ngap_try_def setup_gate_def)
qed

lemma ngap_iteration_no_gate:
  assumes "sock_recv (settimeout conn 5) 4096 (t_recv t) = (conn1, Inr d)" and "d \<noteq> []"
    and "\<not> setup_gate d"
  shows "ngap_iteration t False conn = (Continue, False, conn1)"
  using ngap_try_data [OF assms(1,2)] assms(3) by (simp add: ngap_iteration_def)

lemma ngap_iteration_gate:
  assumes "sock_recv (settimeout conn 5) 4096 (t_recv t) = (conn1, Inr d)" and "d \<noteq> []"
    and "setup_gate d" and "t_send t = SendOk"
  shows "ngap_iteration t False conn =
     (if d ! 0 = 0x00 \<and> d ! 1 = 0x15
      then (Continue, True, conn1\<lparr>sent := sent conn1 @ [projr create_ng_setup_response]\<rparr>)
      else (Continue, False, conn1\<lparr>sent := sent conn1 @ [projr (create_ng_setup_failure default_cause)]\<rparr>))"
proof -
  from assms(3) have "4 < length d"
    by (simp add: setup_gate_def)
  with ngap_try_data [OF assms(1,2)] assms(3,4) show ?thesis
    by (simp add: ngap_iteration_def handle_ng_setup_request_ok)
qed

text \<open>
  The test of line 99 asks for byte 0 to be 0x00, the test of line 139 for byte 0 to be
  21: no message that reaches \<^verbatim>\<open>handle_ng_setup_request\<close> from the connection handler
  takes its first branch.
\<close>

lemma setup_success_unreachable:
  assumes "setup_gate data"
  shows "handle_ng_setup_request conn data sr \<noteq> Inr (conn', True)"
proof -
  from assms have "data ! 0 \<noteq> 0"
    by (auto simp: setup_gate_iff)
  then show ?thesis
    by (simp add: handle_ng_setup_request_def bind_err_def
        create_ng_setup_failure_fits [OF default_cause_bytes] sock_send_def
        split: send_result.splits)
qed

lemma default_cause_nonempty: "default_cause \<noteq> []"
  by (simp add: default_cause_def)

text \<open>
  Claim C1 says that a first message on which \<^verbatim>\<open>decode_header\<close> succeeded with
  procedure code 21 is answered with the success template. On the code such a
  message, when it is longer than 4 bytes as line 137 also asks, is passed to
  \<^verbatim>\<open>handle_ng_setup_request\<close>, whose own test (line 99) wants byte 0 to be 0x00 and
  byte 1 to be 0x15: byte 0 is 21, the test fails, and the reply is always the failure
  template with the cause \<^verbatim>\<open>"Unknown PLMN"\<close>, never the success template, and
  \<^verbatim>\<open>ng_setup_complete\<close> stays false.
\<close>

theorem setup_request_answered_with_failure:
  assumes "sock_recv (settimeout conn 5) 4096 (t_recv t) = (conn1, Inr data)"
    and "4 < length data"
    and "decode_header data = Inr (Some h)"
    and "procedure_code h = NG_SETUP_REQUEST"
    and "t_send t = SendOk"
  shows "\<exists>reply.
           ngap_iteration t False conn = (Continue, False, conn1\<lparr>sent := sent conn1 @ [reply]\<rparr>) \<and>
           Inr reply = create_ng_setup_failure default_cause \<and>
           Inr reply \<noteq> create_ng_setup_response"
proof -
  from assms(2-4) have g: "setup_gate data"
    by (simp add: setup_gate_def)
  from assms(2) have ne: "data \<noteq> []"
    by auto
  from g have "uint (data ! 0) = 21"
    by (simp add: setup_gate_iff)
  then have "data ! 0 \<noteq> 0"
    by auto
  with ngap_iteration_gate [OF assms(1) ne g assms(5)]
  have it: "ngap_iteration t False conn =
     (Continue, False, conn1\<lparr>sent := sent conn1 @ [projr (create_ng_setup_failure default_cause)]\<rparr>)"
    by simp
  have r: "Inr (projr (create_ng_setup_failure default_cause)) = create_ng_setup_failure default_cause"
    by (simp add: create_ng_setup_failure_fits [OF default_cause_bytes])
  have d: "Inr (projr (create_ng_setup_failure default_cause)) \<noteq> create_ng_setup_response"
    by (simp add: create_ng_setup_failure_fits [OF default_cause_bytes] create_ng_setup_response_bytes)
  from it r d show ?thesis
    by blast
qed

text \<open>The 5-byte first message 15 00 00 00 00.\<close>

theorem setup_request_answered_with_failure_witness:
  "decode_header [0x15, 0x00, 0x00, 0x00, 0x00] =
     Inr (Some \<lparr>procedure_code = 21, criticality = 0, length_hdr = 0\<rparr>) \<and>
   (\<exists>reply.
      ngap_iteration \<lparr>t_running = True, t_recv = RecvData [0x15, 0x00, 0x00, 0x00, 0x00], t_send = SendOk\<rparr>
        False new_sock =
      (Continue, False,
       new_sock\<lparr>timeout := Some 5, waits := [Some 5], rcvd := [[0x15, 0x00, 0x00, 0x00, 0x00]],
                sent := [reply]\<rparr>) \<and>
      Inr reply = create_ng_setup_failure default_cause \<and>
      Inr reply \<noteq> create_ng_setup_response)"
  using setup_request_answered_with_failure
          [of new_sock "\<lparr>t_running = True, t_recv = RecvData [0x15, 0x00, 0x00, 0x00, 0x00], t_send = SendOk\<rparr>"
              "new_sock\<lparr>timeout := Some 5, waits := [Some 5], rcvd := [[0x15, 0x00, 0x00, 0x00, 0x00]]\<rparr>"
              "[0x15, 0x00, 0x00, 0x00, 0x00]"
              "\<lparr>procedure_code = 21, criticality = 0, length_hdr = 0\<rparr>"]
  by (simp add: decode_header_long recv_data settimeout_def new_sock_def NG_SETUP_REQUEST_def)

text \<open>
  The message that \<^verbatim>\<open>handle_ng_setup_request\<close> would answer with the success
  template, 00 15 followed by three bytes, is decoded with procedure code 0: it does
  not pass line 139 and nothing is sent in answer.
\<close>

lemma ng_setup_request_tag_unanswered:
  "decode_header [0x00, 0x15, 0x00, 0x00, 0x00] =
     Inr (Some \<lparr>procedure_code = 0, criticality = 21, length_hdr = 0\<rparr>) \<and>
   ngap_iteration \<lparr>t_running = True, t_recv = RecvData [0x00, 0x15, 0x00, 0x00, 0x00], t_send = SendOk\<rparr>
     False new_sock =
   (Continue, False,
    new_sock\<lparr>timeout := Some 5, waits := [Some 5], rcvd := [[0x00, 0x15, 0x00, 0x00, 0x00]]\<rparr>) \<and>
   sent (new_sock\<lparr>timeout := Some 5, waits := [Some 5], rcvd := [[0x00, 0x15, 0x00, 0x00, 0x00]]\<rparr>) = []"
  using ngap_iteration_no_gate
          [of new_sock "\<lparr>t_running = True, t_recv = RecvData [0x00, 0x15, 0x00, 0x00, 0x00], t_send = SendOk\<rparr>"
              "new_sock\<lparr>timeout := Some 5, waits := [Some 5], rcvd := [[0x00, 0x15, 0x00, 0x00, 0x00]]\<rparr>"
              "[0x00, 0x15, 0x00, 0x00, 0x00]"]
  by (simp add: decode_header_long recv_data settimeout_def new_sock_def setup_gate_iff)




section \<open>The registry and the two acceptors\<close>

lemma ngap_loop_outcome: "fst (ngap_loop ticks c conn) = Pending \<or> fst (ngap_loop ticks c conn) = Finished"
proof (induction ticks arbitrary: c conn)
  case Nil
  show ?case by simp
next
  case (Cons t ts)
  obtain k c' conn' where it: "ngap_iteration t c conn = (k, c', conn')"
    by (cases "ngap_iteration t c conn")
  show ?case
    using Cons.IH [of c' conn'] it by (cases k) simp_all
qed

lemma ngap_loop_append:
  assumes "ngap_loop pre c conn = (Pending, c', conn')"
  shows "ngap_loop (pre @ rest) c conn = ngap_loop rest c' conn'"
  using assms
proof (induction pre arbitrary: c conn)
  case Nil
  then show ?case by simp
next
  case (Cons t ts)
  from Cons.prems have run: "t_running t"
    by (simp split: if_splits)
  obtain k c1 conn1 where it: "ngap_iteration t c conn = (k, c1, conn1)"
    by (cases "ngap_iteration t c conn")
  from Cons.prems run it have k: "k = Continue"
    by (cases k) simp_all
  with Cons.prems run it have "ngap_loop ts c1 conn1 = (Pending, c', conn')"
    by simp
  from Cons.IH [OF this] run it k show ?case
    by simp
qed

lemma ngap_loop_peer_gone:
  assumes "t_running t" and "t_recv t = RecvData [] \<or> t_recv t = RecvError"
  shows "fst (ngap_loop (t # ts) c conn) = Finished"
  using assms
  by (auto simp: ngap_iteration_def ngap_try_def sock_recv_def Let_def)

lemma handle_ngap_connection_registry:
  "(fst (handle_ngap_connection a conn addr ticks ok) = Pending \<longrightarrow>
      map_of (connections (snd (handle_ngap_connection a conn addr ticks ok))) (conn_id_of addr) = Some conn) \<and>
   (fst (handle_ngap_connection a conn addr ticks ok) \<noteq> Pending \<longrightarrow>
      map_of (connections (snd (handle_ngap_connection a conn addr ticks ok))) (conn_id_of addr) = None) \<and>
   (k \<noteq> conn_id_of addr \<longrightarrow>
      map_of (connections (snd (handle_ngap_connection a conn addr ticks ok))) k = map_of (connections a) k)"
proof -
  obtain out c s where l: "ngap_loop ticks False (socks (connections_add a (conn_id_of addr) conn) conn) = (out, c, s)"
    by (cases "ngap_loop ticks False (socks (connections_add a (conn_id_of addr) conn) conn)")
  from ngap_loop_outcome [of ticks False "socks (connections_add a (conn_id_of addr) conn) conn"] l
  have "out = Pending \<or> out = Finished" by simp
  then show ?thesis
  proof
    assume "out = Pending"
    with l show ?thesis
      by (simp add: handle_ngap_connection_def Let_def connections_add_def update_conv')
  next
    assume "out = Finished"
    with l show ?thesis
      by (cases "sock_close s ok")
         (simp_all add: handle_ngap_connection_def Let_def connections_add_def connections_del_def
            update_conv' delete_conv')
  qed
qed

lemma handle_ngap_connection_pending:
  "fst (handle_ngap_connection a conn addr ticks ok) = Pending \<longleftrightarrow>
   fst (ngap_loop ticks False (socks a conn)) = Pending"
proof -
  have s: "socks (connections_add a (conn_id_of addr) conn) conn = socks a conn"
    by (simp add: connections_add_def)
  obtain out c s where l: "ngap_loop ticks False (socks a conn) = (out, c, s)"
    by (cases "ngap_loop ticks False (socks a conn)")
  from ngap_loop_outcome [of ticks False "socks a conn"] l
  have "out = Pending \<or> out = Finished" by simp
  then show ?thesis
  proof
    assume "out = Pending"
    with l s show ?thesis
      by (simp add: handle_ngap_connection_def Let_def)
  next
    assume "out = Finished"
    with l s show ?thesis
      by (cases "sock_close s ok") (simp_all add: handle_ngap_connection_def Let_def)
  qed
qed

lemma handle_ngap_connection_peer_gone:
  assumes "fst (handle_ngap_connection a conn addr pre ok) = Pending"
    and "t_running t" and "t_recv t = RecvData [] \<or> t_recv t = RecvError"
  shows "fst (handle_ngap_connection a conn addr (pre @ t # ts) ok') \<noteq> Pending"
proof -
  from assms(1) have "fst (ngap_loop pre False (socks a conn)) = Pending"
    by (simp add: handle_ngap_connection_pending)
  then obtain c' conn' where "ngap_loop pre False (socks a conn) = (Pending, c', conn')"
    by (cases "ngap_loop pre False (socks a conn)") simp
  from ngap_loop_append [OF this] ngap_loop_peer_gone [OF assms(2,3)]
  have "fst (ngap_loop (pre @ t # ts) False (socks a conn)) = Finished"
    by simp
  then show ?thesis
    by (simp add: handle_ngap_connection_pending)
qed

lemma accept_loop_step:
  assumes "p_running p"
  shows "accept_loop (p # ps) lsock =
     (case accept_loop ps ((settimeout lsock 1)\<lparr>waits := waits lsock @ [Some 1]\<rparr>) of
        (out, started, l3) \<Rightarrow>
          (out, (case p_accept p of Accepted conn addr \<Rightarrow> [(conn, addr)] | _ \<Rightarrow> []) @ started, l3))"
  using assms
  by (cases "p_accept p") (simp_all add: Let_def settimeout_def split: prod.splits)

lemma accept_loop_started:
  "fst (snd (accept_loop polls lsock)) =
     concat (map (\<lambda>p. case p_accept p of Accepted conn addr \<Rightarrow> [(conn, addr)] | _ \<Rightarrow> [])
               (takeWhile p_running polls))"
proof (induction polls arbitrary: lsock)
  case Nil
  show ?case by simp
next
  case (Cons p ps)
  show ?case
  proof (cases "p_running p")
    case False
    then show ?thesis by simp
  next
    case True
    obtain out started l3
      where r: "accept_loop ps ((settimeout lsock 1)\<lparr>waits := waits lsock @ [Some 1]\<rparr>) = (out, started, l3)"
      by (cases "accept_loop ps ((settimeout lsock 1)\<lparr>waits := waits lsock @ [Some 1]\<rparr>)")
    from Cons.IH [of "(settimeout lsock 1)\<lparr>waits := waits lsock @ [Some 1]\<rparr>"] r
    have "started =
      concat (map (\<lambda>p. case p_accept p of Accepted conn addr \<Rightarrow> [(conn, addr)] | _ \<Rightarrow> [])
               (takeWhile p_running ps))"
      by simp
    with True r show ?thesis
      by (simp add: accept_loop_step del: accept_loop.simps)
  qed
qed

lemma accept_loop_outcome:
  "fst (accept_loop polls lsock) = Pending \<or> fst (accept_loop polls lsock) = Finished"
proof (induction polls arbitrary: lsock)
  case Nil
  show ?case by simp
next
  case (Cons p ps)
  show ?case
  proof (cases "p_running p")
    case False
    then show ?thesis by simp
  next
    case True
    obtain out started l3
      where r: "accept_loop ps ((settimeout lsock 1)\<lparr>waits := waits lsock @ [Some 1]\<rparr>) = (out, started, l3)"
      by (cases "accept_loop ps ((settimeout lsock 1)\<lparr>waits := waits lsock @ [Some 1]\<rparr>)")
    from Cons.IH [of "(settimeout lsock 1)\<lparr>waits := waits lsock @ [Some 1]\<rparr>"] r
    have "out = Pending \<or> out = Finished"
      by simp
    with True r show ?thesis
      by (simp add: accept_loop_step del: accept_loop.simps)
  qed
qed

lemma MockAMF_start_started:
  "fst (snd (snd (MockAMF_start a True polls))) = fst (snd (accept_loop polls new_sock))"
  using accept_loop_outcome [of polls new_sock]
  by (cases "accept_loop polls new_sock") (auto simp: MockAMF_start_def Let_def)

lemma SCTPBridge_start_started:
  "fst (snd (snd (SCTPBridge_start b True polls))) = fst (snd (accept_loop polls new_sock))"
  using accept_loop_outcome [of polls new_sock]
  by (cases "accept_loop polls new_sock") (auto simp: SCTPBridge_start_def Let_def)

lemma SCTPBridge_start_connections:
  "b_connections (fst (SCTPBridge_start b bind_ok polls)) = b_connections b"
  using accept_loop_outcome [of polls new_sock]
  by (cases "accept_loop polls new_sock") (auto simp: SCTPBridge_start_def Let_def)

lemma handle_tcp_to_sctp_self:
  "fst (handle_tcp_to_sctp b tcp_conn addr sc) = b"
  by (simp add: handle_tcp_to_sctp_def split: option.splits prod.splits outcome.splits sum.splits)


text \<open>
  Claim C7, as amended. Both acceptors hand every connection accepted while the
  running flag is set to a handler thread of its own. The handler of MockAMF inserts
  the connection into the registry under its \<^verbatim>\<open>address:port\<close> identifier, where it
  stays while the handler is in its loop, and removes the entry when the handler
  ends; a peer close or a receive error ends it. The handler and the acceptor of
  SCTPBridge never write \<^verbatim>\<open>self.connections\<close>: that registry is empty from
  \<^verbatim>\<open>__init__\<close> on and stays as it is.
\<close>

theorem connection_registry_lifecycle:
  "fst (snd (snd (MockAMF_start a True polls))) =
     concat (map (\<lambda>p. case p_accept p of Accepted conn addr \<Rightarrow> [(conn, addr)] | _ \<Rightarrow> [])
               (takeWhile p_running polls)) \<and>
   fst (snd (snd (SCTPBridge_start b True polls))) =
     concat (map (\<lambda>p. case p_accept p of Accepted conn addr \<Rightarrow> [(conn, addr)] | _ \<Rightarrow> [])
               (takeWhile p_running polls)) \<and>
   (fst (handle_ngap_connection a conn addr ticks ok) = Pending \<longrightarrow>
      map_of (connections (snd (handle_ngap_connection a conn addr ticks ok))) (conn_id_of addr) = Some conn) \<and>
   (fst (handle_ngap_connection a conn addr ticks ok) \<noteq> Pending \<longrightarrow>
      map_of (connections (snd (handle_ngap_connection a conn addr ticks ok))) (conn_id_of addr) = None) \<and>
   (fst (handle_ngap_connection a conn addr pre ok) = Pending \<and> t_running t \<and>
    (t_recv t = RecvData [] \<or> t_recv t = RecvError) \<longrightarrow>
      fst (handle_ngap_connection a conn addr (pre @ t # ts) ok) \<noteq> Pending) \<and>
   fst (handle_tcp_to_sctp b tcp_conn addr sc) = b \<and>
   b_connections (fst (SCTPBridge_start b bind_ok polls)) = b_connections b \<and>
   b_connections (SCTPBridge_init ta tp sa sp) = []"
  using handle_ngap_connection_registry [of a conn addr ticks ok "conn_id_of addr"]
        handle_ngap_connection_peer_gone [of a conn addr pre ok t ts ok]
  by (simp add: MockAMF_start_started SCTPBridge_start_started accept_loop_started
      handle_tcp_to_sctp_self SCTPBridge_start_connections SCTPBridge_init_def)

text \<open>
  One connection accepted after an accept timeout; its handler after a receive
  timeout, and after the peer's close that follows.
\<close>

theorem connection_registry_lifecycle_witness:
  "fst (snd (snd (MockAMF_start (MockAMF_init ''127.0.0.4'' 38412) True
     [\<lparr>p_running = True, p_accept = AcceptTimeout\<rparr>,
      \<lparr>p_running = True, p_accept = Accepted 3 (''10.0.0.1'', 5000)\<rparr>]))) =
     [(3, ''10.0.0.1'', 5000)] \<and>
   conn_id_of (''10.0.0.1'', 5000) = ''10.0.0.1:5000'' \<and>
   map_of (connections (snd (handle_ngap_connection (MockAMF_init ''127.0.0.4'' 38412) 3 (''10.0.0.1'', 5000)
     [\<lparr>t_running = True, t_recv = RecvTimeout, t_send = SendOk\<rparr>] True))) ''10.0.0.1:5000'' = Some 3 \<and>
   map_of (connections (snd (handle_ngap_connection (MockAMF_init ''127.0.0.4'' 38412) 3 (''10.0.0.1'', 5000)
     ([\<lparr>t_running = True, t_recv = RecvTimeout, t_send = SendOk\<rparr>] @
      [\<lparr>t_running = True, t_recv = RecvData [], t_send = SendOk\<rparr>]) True))) ''10.0.0.1:5000'' = None"
proof -
  have id: "conn_id_of (''10.0.0.1'', 5000) = ''10.0.0.1:5000''"
    by (simp add: conn_id_of_def str_nat.simps)
  have p: "fst (handle_ngap_connection (MockAMF_init ''127.0.0.4'' 38412) 3 (''10.0.0.1'', 5000)
     [\<lparr>t_running = True, t_recv = RecvTimeout, t_send = SendOk\<rparr>] True) = Pending"
    by (simp add: handle_ngap_connection_pending ngap_iteration_def ngap_try_def sock_recv_def Let_def)
  from connection_registry_lifecycle
    [of "MockAMF_init ''127.0.0.4'' 38412"
        "[\<lparr>p_running = True, p_accept = AcceptTimeout\<rparr>,
          \<lparr>p_running = True, p_accept = Accepted 3 (''10.0.0.1'', 5000)\<rparr>]"
        _ 3 "(''10.0.0.1'', 5000)"
        "[\<lparr>t_running = True, t_recv = RecvTimeout, t_send = SendOk\<rparr>]" True
        "[\<lparr>t_running = True, t_recv = RecvTimeout, t_send = SendOk\<rparr>]"
        "\<lparr>t_running = True, t_recv = RecvData [], t_send = SendOk\<rparr>" "[]"]
    connection_registry_lifecycle
    [of "MockAMF_init ''127.0.0.4'' 38412" "[]" _ 3 "(''10.0.0.1'', 5000)"
        "[\<lparr>t_running = True, t_recv = RecvTimeout, t_send = SendOk\<rparr>] @
         [\<lparr>t_running = True, t_recv = RecvData [], t_send = SendOk\<rparr>]" True
        "[\<lparr>t_running = True, t_recv = RecvTimeout, t_send = SendOk\<rparr>]"
        "\<lparr>t_running = True, t_recv = RecvData [], t_send = SendOk\<rparr>" "[]"]
    id p
  show ?thesis
    by simp
qed

text \<open>
  The claim as stated covers both acceptors. The bridge accepts a connection from
  10.0.0.1:5000 and starts its handler; while the handler is still serving it, the
  bridge's registry has no entry for it.
\<close>

theorem connection_registry_lifecycle_counterexample:
  "fst (snd (snd (SCTPBridge_start (SCTPBridge_init ''127.0.0.4'' 38412 ''127.0.0.5'' 38413) True
     [\<lparr>p_running = True, p_accept = Accepted 7 (''10.0.0.1'', 5000)\<rparr>]))) =
     [(7, ''10.0.0.1'', 5000)] \<and>
   conn_id_of (''10.0.0.1'', 5000) = ''10.0.0.1:5000'' \<and>
   fst (snd (handle_tcp_to_sctp
     ((SCTPBridge_init ''127.0.0.4'' 38412 ''127.0.0.5'' 38413)\<lparr>b_running := True\<rparr>)
     new_sock (''10.0.0.1'', 5000)
     \<lparr>sc_probe = None, sc_wakes = [], sc_first_recv = RecvData [0x00, 0x15, 0x00, 0x00, 0x00],
      sc_reply_send = SendOk, sc_ticks = [], sc_sctp_close_ok = True, sc_tcp_close_ok = True\<rparr>)) = Pending \<and>
   map_of (b_connections (fst (handle_tcp_to_sctp
     ((SCTPBridge_init ''127.0.0.4'' 38412 ''127.0.0.5'' 38413)\<lparr>b_running := True\<rparr>)
     new_sock (''10.0.0.1'', 5000)
     \<lparr>sc_probe = None, sc_wakes = [], sc_first_recv = RecvData [0x00, 0x15, 0x00, 0x00, 0x00],
      sc_reply_send = SendOk, sc_ticks = [], sc_sctp_close_ok = True, sc_tcp_close_ok = True\<rparr>)))
     ''10.0.0.1:5000'' = None"
  by (simp add: SCTPBridge_start_started accept_loop_started handle_tcp_to_sctp_self
      conn_id_of_def str_nat.simps SCTPBridge_init_def handle_tcp_to_sctp_def handle_mock_amf_def
      sock_recv_def sock_send_def Let_def)

section \<open>The duplex forwarder\<close>

lemma relayed_imp_upto: "relayed src dst \<Longrightarrow> relayed_upto src dst"
  by (simp add: relayed_def relayed_upto_def)

lemma bridged_imp_upto: "bridged l \<Longrightarrow> bridged_upto l"
  by (simp add: bridged_def bridged_upto_def relayed_imp_upto)

lemma forward_other_logs:
  assumes "forward src dst rr sr = (k, src', dst')"
  shows "sent src' = sent src \<and> rcvd dst' = rcvd dst"
  using assms
  by (cases rr; cases sr)
     (auto simp: forward_def sock_recv_def sock_send_def Let_def split: if_splits)

lemma forward_chunks:
  assumes "forward src dst rr sr = (k, src', dst')" and "chunks_bounded src"
  shows "chunks_bounded src'"
  using assms
  by (cases rr; cases sr)
     (auto simp: forward_def sock_recv_def sock_send_def Let_def chunks_bounded_def split: if_splits)

lemma forward_relayed:
  assumes "forward src dst rr sr = (Continue, src', dst')" and "relayed src dst"
  shows "relayed src' dst'"
  using assms
  by (cases rr; cases sr)
     (auto simp: forward_def sock_recv_def sock_send_def Let_def relayed_def split: if_splits)

lemma forward_relayed_upto:
  assumes "forward src dst rr sr = (k, src', dst')" and "relayed src dst"
  shows "relayed_upto src' dst'"
  using assms
  by (cases rr; cases sr)
     (auto simp: forward_def sock_recv_def sock_send_def Let_def relayed_def relayed_upto_def
           split: if_splits)

lemma forward_back_relayed:
  assumes "forward src dst rr sr = (k, src', dst')" and "relayed dst src"
  shows "relayed dst' src'"
  using forward_other_logs [OF assms(1)] assms(2) by (simp add: relayed_def)

lemma forward_back_chunks:
  assumes "forward src dst rr sr = (k, src', dst')" and "chunks_bounded dst"
  shows "chunks_bounded dst'"
  using forward_other_logs [OF assms(1)] assms(2) by (simp add: chunks_bounded_def)

lemma forward_empty_read: "fst (forward src dst (RecvData []) sr) = Break"
  by (simp add: forward_def sock_recv_def Let_def)


lemma bridge_wake_unfold:
  assumes "w_select w = Selected rt rs xt xs"
    and "(if rt then forward (tcp l) (sctp l) (w_tcp_recv w) (w_sctp_send w)
          else (Continue, tcp l, sctp l)) = (k1, t1, s1)"
    and "(if rs then forward s1 t1 (w_sctp_recv w) (w_tcp_send w)
          else (Continue, s1, t1)) = (k2, s2, t2)"
  shows "bridge_wake w l =
     (if k1 \<noteq> Continue then (k1, \<lparr>tcp = t1, sctp = s1\<rparr>)
      else if k2 \<noteq> Continue then (k2, \<lparr>tcp = t2, sctp = s2\<rparr>)
      else (if xt \<or> xs then Break else Continue, \<lparr>tcp = t2, sctp = s2\<rparr>))"
  using assms
  by (cases k1; cases k2) (simp_all add: bridge_wake_def)

lemma bridge_wake_props:
  assumes w: "bridge_wake w l = (k, l')" and inv: "bridged l"
  shows "bridged_upto l' \<and> (k = Continue \<longrightarrow> bridged l')"
proof (cases "w_select w")
  case SelectError
  with w have "l' = l" and "k \<noteq> Continue"
    by (auto simp: bridge_wake_def)
  with inv show ?thesis
    by (simp add: bridged_imp_upto)
next
  case (Selected rt rs xt xs)
  obtain k1 t1 s1 where f1:
    "(if rt then forward (tcp l) (sctp l) (w_tcp_recv w) (w_sctp_send w)
      else (Continue, tcp l, sctp l)) = (k1, t1, s1)"
    by (metis prod_cases3)
  obtain k2 s2 t2 where f2:
    "(if rs then forward s1 t1 (w_sctp_recv w) (w_tcp_send w)
      else (Continue, s1, t1)) = (k2, s2, t2)"
    by (metis prod_cases3)
  from inv have i: "relayed (tcp l) (sctp l)" "relayed (sctp l) (tcp l)"
    "chunks_bounded (tcp l)" "chunks_bounded (sctp l)"
    by (simp_all add: bridged_def)
  have c1: "chunks_bounded t1" "chunks_bounded s1" "relayed s1 t1" "relayed_upto t1 s1"
    using f1 i
    by (auto split: if_splits
        intro: forward_chunks forward_back_chunks forward_back_relayed forward_relayed_upto
          relayed_imp_upto)
  have r1: "relayed t1 s1" if "k1 = Continue"
    using f1 i that by (auto split: if_splits intro: forward_relayed)
  have c2: "chunks_bounded t2" "chunks_bounded s2"
    using f2 c1 by (auto split: if_splits intro: forward_chunks forward_back_chunks)
  have r2: "relayed t2 s2" "relayed_upto s2 t2" if "k1 = Continue"
    using f2 c1 r1 [OF that]
    by (auto split: if_splits intro: forward_back_relayed forward_relayed_upto relayed_imp_upto)
  have r3: "relayed s2 t2" if "k1 = Continue" and "k2 = Continue"
    using f2 c1 that by (auto split: if_splits intro: forward_relayed)
  from bridge_wake_unfold [OF Selected f1 f2] w
  have res: "(k, l') =
     (if k1 \<noteq> Continue then (k1, \<lparr>tcp = t1, sctp = s1\<rparr>)
      else if k2 \<noteq> Continue then (k2, \<lparr>tcp = t2, sctp = s2\<rparr>)
      else (if xt \<or> xs then Break else Continue, \<lparr>tcp = t2, sctp = s2\<rparr>))"
    by simp
  show ?thesis
  proof (cases "k1 = Continue")
    case False
    with res c1 show ?thesis
      by (simp add: bridged_upto_def relayed_imp_upto)
  next
    case k1: True
    show ?thesis
    proof (cases "k2 = Continue")
      case False
      with res k1 c2 r2 [OF k1] show ?thesis
        by (simp add: bridged_upto_def relayed_imp_upto)
    next
      case True
      with res k1 c2 r2 [OF k1] r3 [OF k1 True] show ?thesis
        by (auto simp: bridged_upto_def bridged_def relayed_imp_upto split: if_splits)
    qed
  qed
qed

lemma bridge_loop_props:
  assumes "bridged l"
  shows "bridged_upto (snd (bridge_loop ws l)) \<and>
         (fst (bridge_loop ws l) = Pending \<longrightarrow> bridged (snd (bridge_loop ws l)))"
  using assms
proof (induction ws arbitrary: l)
  case Nil
  then show ?case by (simp add: bridged_imp_upto)
next
  case (Cons w ws)
  show ?case
  proof (cases "w_running w")
    case False
    with Cons.prems show ?thesis by (simp add: bridged_imp_upto)
  next
    case True
    obtain k l' where bw: "bridge_wake w l = (k, l')"
      by (cases "bridge_wake w l")
    from bridge_wake_props [OF bw Cons.prems]
    have p: "bridged_upto l'" "k = Continue \<Longrightarrow> bridged l'"
      by simp_all
    show ?thesis
    proof (cases "k = Continue")
      case c: True
      from Cons.IH [OF p(2) [OF c]] True bw c show ?thesis
        by simp
    next
      case False
      with True bw p(1) show ?thesis
        by (cases k) simp_all
    qed
  qed
qed

lemma bridge_loop_outcome:
  "fst (bridge_loop ws l) = Pending \<or> fst (bridge_loop ws l) = Finished"
proof (induction ws arbitrary: l)
  case Nil
  show ?case by simp
next
  case (Cons w ws)
  obtain k l' where bw: "bridge_wake w l = (k, l')"
    by (cases "bridge_wake w l")
  show ?case
    using Cons.IH [of l'] bw by (cases k) simp_all
qed

lemma bridge_loop_append:
  assumes "bridge_loop pre l = (Pending, l1)"
  shows "bridge_loop (pre @ rest) l = bridge_loop rest l1"
  using assms
proof (induction pre arbitrary: l)
  case Nil
  then show ?case by simp
next
  case (Cons w ws)
  from Cons.prems have run: "w_running w"
    by (simp split: if_splits)
  obtain k l' where bw: "bridge_wake w l = (k, l')"
    by (cases "bridge_wake w l")
  from Cons.prems run bw have k: "k = Continue"
    by (cases k) simp_all
  with Cons.prems run bw have "bridge_loop ws l' = (Pending, l1)"
    by simp
  from Cons.IH [OF this] run bw k show ?case
    by simp
qed

lemma bridge_wake_stops:
  assumes "w_select w = Selected rt rs xt xs"
    and "rt \<and> w_tcp_recv w = RecvData [] \<or> rs \<and> w_sctp_recv w = RecvData [] \<or> xt \<or> xs"
  shows "fst (bridge_wake w l) \<noteq> Continue"
proof -
  obtain k1 t1 s1 where f1:
    "(if rt then forward (tcp l) (sctp l) (w_tcp_recv w) (w_sctp_send w)
      else (Continue, tcp l, sctp l)) = (k1, t1, s1)"
    by (metis prod_cases3)
  obtain k2 s2 t2 where f2:
    "(if rs then forward s1 t1 (w_sctp_recv w) (w_tcp_send w)
      else (Continue, s1, t1)) = (k2, s2, t2)"
    by (metis prod_cases3)
  have a: "k1 = Break" if "rt" and "w_tcp_recv w = RecvData []"
    using f1 that forward_empty_read [of "tcp l" "sctp l" "w_sctp_send w"] by simp
  have b: "k2 = Break" if "rs" and "w_sctp_recv w = RecvData []"
    using f2 that forward_empty_read [of s1 t1 "w_tcp_send w"] by simp
  from assms(2) a b have "k1 \<noteq> Continue \<or> k2 \<noteq> Continue \<or> xt \<or> xs"
    by auto
  then show ?thesis
    by (auto simp: bridge_wake_unfold [OF assms(1) f1 f2])
qed

lemma bridge_loop_stops:
  assumes "w_running w" and "w_select w = Selected rt rs xt xs"
    and "rt \<and> w_tcp_recv w = RecvData [] \<or> rs \<and> w_sctp_recv w = RecvData [] \<or> xt \<or> xs"
  shows "fst (bridge_loop (w # ws) l) = Finished"
proof -
  obtain k l' where bw: "bridge_wake w l = (k, l')"
    by (cases "bridge_wake w l")
  with bridge_wake_stops [OF assms(2,3), of l] have "k \<noteq> Continue"
    by simp
  with bw assms(1) show ?thesis
    by (cases k) simp_all
qed

lemma handle_tcp_to_sctp_closes:
  assumes "sc_probe sc = Some sctp_sock"
    and "fst (bridge_loop (sc_wakes sc) \<lparr>tcp = tcp_conn, sctp = sctp_sock\<rparr>) = Finished"
    and "sc_sctp_close_ok sc" and "sc_tcp_close_ok sc"
  shows "handle_tcp_to_sctp b tcp_conn addr sc =
     (b, Finished,
      (tcp (snd (bridge_loop (sc_wakes sc) \<lparr>tcp = tcp_conn, sctp = sctp_sock\<rparr>)))\<lparr>closed := True\<rparr>,
      Some ((sctp (snd (bridge_loop (sc_wakes sc) \<lparr>tcp = tcp_conn, sctp = sctp_sock\<rparr>)))\<lparr>closed := True\<rparr>))"
  using assms
  by (cases "bridge_loop (sc_wakes sc) \<lparr>tcp = tcp_conn, sctp = sctp_sock\<rparr>")
     (simp add: handle_tcp_to_sctp_def sock_close_def)


text \<open>
  While bridging, every read takes at most 4096 bytes from the handle that became
  readable, and the bytes of every non-empty read are the argument of the next
  \<^verbatim>\<open>send\<close> on the other handle, unchanged and in order: the sends on one side are
  exactly the non-empty reads of the other while the loop runs, and all of them but at
  most the last one (whose send raised) when the loop has ended. A wake with an empty
  read on a readable side, or with an exceptional condition on either handle, ends the
  loop.
\<close>

lemma forward_data:
  "forward src dst (RecvData d) SendOk =
     (if d = [] then
        (Break, src\<lparr>waits := waits src @ [timeout src], rcvd := rcvd src @ [[]]\<rparr>, dst)
      else
        (Continue, src\<lparr>waits := waits src @ [timeout src], rcvd := rcvd src @ [take 4096 d]\<rparr>,
         dst\<lparr>sent := sent dst @ [take 4096 d]\<rparr>))"
  by (simp add: forward_def sock_recv_def sock_send_def Let_def)

lemma bridge_loop_relays:
  assumes "bridged l"
  shows "bridged_upto (snd (bridge_loop ws l)) \<and>
         (fst (bridge_loop ws l) = Pending \<longrightarrow> bridged (snd (bridge_loop ws l))) \<and>
         (bridge_loop pre l = (Pending, l1) \<and> w_running w \<and>
          w_select w = Selected rt rs xt xs \<and>
          (rt \<and> w_tcp_recv w = RecvData [] \<or> rs \<and> w_sctp_recv w = RecvData [] \<or> xt \<or> xs) \<longrightarrow>
            fst (bridge_loop (pre @ w # rest) l) = Finished)"
proof (intro conjI impI)
  show "bridged_upto (snd (bridge_loop ws l))"
    using bridge_loop_props [OF assms] by simp
next
  assume "fst (bridge_loop ws l) = Pending"
  then show "bridged (snd (bridge_loop ws l))"
    using bridge_loop_props [OF assms] by simp
next
  assume a: "bridge_loop pre l = (Pending, l1) \<and> w_running w \<and>
          w_select w = Selected rt rs xt xs \<and>
          (rt \<and> w_tcp_recv w = RecvData [] \<or> rs \<and> w_sctp_recv w = RecvData [] \<or> xt \<or> xs)"
  then have "bridge_loop (pre @ w # rest) l = bridge_loop (w # rest) l1"
    by (simp add: bridge_loop_append)
  moreover from a bridge_loop_stops [of w rt rs xt xs rest l1]
  have "fst (bridge_loop (w # rest) l1) = Finished"
    by blast
  ultimately show "fst (bridge_loop (pre @ w # rest) l) = Finished"
    by simp
qed

text \<open>Neither the reads nor the sends of the loop close a socket.\<close>

lemma forward_closed:
  assumes "forward src dst rr sr = (k, src', dst')"
  shows "closed src' = closed src \<and> closed dst' = closed dst"
  using assms
  by (cases rr; cases sr)
     (auto simp: forward_def sock_recv_def sock_send_def Let_def split: if_splits)

lemma bridge_wake_closed:
  assumes "bridge_wake w l = (k, l')"
  shows "closed (tcp l') = closed (tcp l) \<and> closed (sctp l') = closed (sctp l)"
proof (cases "w_select w")
  case SelectError
  with assms show ?thesis
    by (auto simp: bridge_wake_def)
next
  case (Selected rt rs xt xs)
  obtain k1 t1 s1 where f1:
    "(if rt then forward (tcp l) (sctp l) (w_tcp_recv w) (w_sctp_send w)
      else (Continue, tcp l, sctp l)) = (k1, t1, s1)"
    by (metis prod_cases3)
  obtain k2 s2 t2 where f2:
    "(if rs then forward s1 t1 (w_sctp_recv w) (w_tcp_send w)
      else (Continue, s1, t1)) = (k2, s2, t2)"
    by (metis prod_cases3)
  have c1: "closed t1 = closed (tcp l) \<and> closed s1 = closed (sctp l)"
    using f1 forward_closed [of "tcp l" "sctp l" "w_tcp_recv w" "w_sctp_send w" k1 t1 s1]
    by (auto split: if_splits)
  have c2: "closed s2 = closed s1 \<and> closed t2 = closed t1"
    using f2 forward_closed [of s1 t1 "w_sctp_recv w" "w_tcp_send w" k2 s2 t2]
    by (auto split: if_splits)
  from bridge_wake_unfold [OF Selected f1 f2] assms c1 c2 show ?thesis
    by (auto split: if_splits)
qed

lemma bridge_loop_closed:
  "closed (tcp (snd (bridge_loop ws l))) = closed (tcp l) \<and>
   closed (sctp (snd (bridge_loop ws l))) = closed (sctp l)"
proof (induction ws arbitrary: l)
  case Nil
  show ?case by simp
next
  case (Cons w ws)
  obtain k l' where bw: "bridge_wake w l = (k, l')"
    by (cases "bridge_wake w l")
  from bridge_wake_closed [OF bw] Cons.IH [of l'] bw show ?case
    by (cases k) simp_all
qed

text \<open>
  Claim C6 says that after the loop has ended both the outbound and the inbound handle
  are closed. The outbound \<^verbatim>\<open>sctp_sock.close()\<close> is in the \<^verbatim>\<open>finally\<close> of line 88,
  the inbound \<^verbatim>\<open>tcp_conn.close()\<close> after it at line 96, outside the \<^verbatim>\<open>try\<close>. When
  the loop has ended and the outbound close raises, the exception leaves the handler:
  the inbound close is never called, and both sockets are left as the loop left
  them, open. (When both closes return, both sockets are closed:
  \<open>handle_tcp_to_sctp_closes\<close>.)
\<close>

theorem teardown_leaves_inbound_open:
  assumes "sc_probe sc = Some sctp_sock"
    and "bridge_loop (sc_wakes sc) \<lparr>tcp = tcp_conn, sctp = sctp_sock\<rparr> = (Finished, l)"
    and "\<not> sc_sctp_close_ok sc"
  shows "handle_tcp_to_sctp b tcp_conn addr sc = (b, Crashed OSError, tcp l, Some (sctp l)) \<and>
         closed (tcp l) = closed tcp_conn \<and> closed (sctp l) = closed sctp_sock"
proof -
  from assms have "handle_tcp_to_sctp b tcp_conn addr sc = (b, Crashed OSError, tcp l, Some (sctp l))"
    by (simp add: handle_tcp_to_sctp_def sock_close_def)
  moreover from bridge_loop_closed [of "sc_wakes sc" "\<lparr>tcp = tcp_conn, sctp = sctp_sock\<rparr>"] assms(2)
  have "closed (tcp l) = closed tcp_conn \<and> closed (sctp l) = closed sctp_sock"
    by simp
  ultimately show ?thesis
    by simp
qed

text \<open>
  The inbound side offers 5000 bytes: one wake reads 4096 of them and sends these 4096
  to the outbound side. The next wake finds the outbound side closed by its peer and
  the loop ends; the close of the outbound socket raises, and the inbound socket stays
  open.
\<close>

theorem teardown_leaves_inbound_open_witness:
  "bridge_loop
     [\<lparr>w_running = True, w_select = Selected True False False False,
       w_tcp_recv = RecvData (replicate 5000 0x41), w_sctp_send = SendOk,
       w_sctp_recv = RecvTimeout, w_tcp_send = SendOk\<rparr>,
      \<lparr>w_running = True, w_select = Selected False True False False,
       w_tcp_recv = RecvTimeout, w_sctp_send = SendOk,
       w_sctp_recv = RecvData [], w_tcp_send = SendOk\<rparr>]
     \<lparr>tcp = new_sock, sctp = new_sock\<rparr> =
   (Finished,
    \<lparr>tcp = new_sock\<lparr>waits := [None], rcvd := [replicate 4096 0x41]\<rparr>,
     sctp = new_sock\<lparr>sent := [replicate 4096 0x41], waits := [None], rcvd := [[]]\<rparr>\<rparr>) \<and>
   handle_tcp_to_sctp (SCTPBridge_init ''127.0.0.4'' 38412 ''127.0.0.5'' 38413) new_sock
     (''10.0.0.1'', 5000)
     \<lparr>sc_probe = Some new_sock,
      sc_wakes =
        [\<lparr>w_running = True, w_select = Selected True False False False,
          w_tcp_recv = RecvData (replicate 5000 0x41), w_sctp_send = SendOk,
          w_sctp_recv = RecvTimeout, w_tcp_send = SendOk\<rparr>,
         \<lparr>w_running = True, w_select = Selected False True False False,
          w_tcp_recv = RecvTimeout, w_sctp_send = SendOk,
          w_sctp_recv = RecvData [], w_tcp_send = SendOk\<rparr>],
      sc_first_recv = RecvTimeout, sc_reply_send = SendOk, sc_ticks = [],
      sc_sctp_close_ok = False, sc_tcp_close_ok = True\<rparr> =
   (SCTPBridge_init ''127.0.0.4'' 38412 ''127.0.0.5'' 38413, Crashed OSError,
    new_sock\<lparr>waits := [None], rcvd := [replicate 4096 0x41]\<rparr>,
    Some (new_sock\<lparr>sent := [replicate 4096 0x41], waits := [None], rcvd := [[]]\<rparr>)) \<and>
   \<not> closed (new_sock\<lparr>waits := [None], rcvd := [replicate 4096 0x41]\<rparr>) \<and>
   \<not> closed (new_sock\<lparr>sent := [replicate 4096 0x41], waits := [None], rcvd := [[]]\<rparr>)"
proof -
  let ?w1 = "\<lparr>w_running = True, w_select = Selected True False False False,
       w_tcp_recv = RecvData (replicate 5000 0x41), w_sctp_send = SendOk,
       w_sctp_recv = RecvTimeout, w_tcp_send = SendOk\<rparr>"
  let ?w2 = "\<lparr>w_running = True, w_select = Selected False True False False,
       w_tcp_recv = RecvTimeout, w_sctp_send = SendOk,
       w_sctp_recv = RecvData [], w_tcp_send = SendOk\<rparr>"
  let ?l = "\<lparr>tcp = new_sock\<lparr>waits := [None], rcvd := [replicate 4096 0x41]\<rparr>,
     sctp = new_sock\<lparr>sent := [replicate 4096 0x41], waits := [None], rcvd := [[]]\<rparr>\<rparr>"
  let ?sc = "\<lparr>sc_probe = Some new_sock, sc_wakes = [?w1, ?w2],
      sc_first_recv = RecvTimeout, sc_reply_send = SendOk, sc_ticks = [],
      sc_sctp_close_ok = False, sc_tcp_close_ok = True\<rparr>"
  have e: "bridge_loop [?w1, ?w2] \<lparr>tcp = new_sock, sctp = new_sock\<rparr> = (Finished, ?l)"
    by (simp add: bridge_wake_def forward_def sock_recv_def sock_send_def Let_def new_sock_def)
  from teardown_leaves_inbound_open
         [of ?sc new_sock new_sock ?l "SCTPBridge_init ''127.0.0.4'' 38412 ''127.0.0.5'' 38413"
             "(''10.0.0.1'', 5000)"] e
  have "handle_tcp_to_sctp (SCTPBridge_init ''127.0.0.4'' 38412 ''127.0.0.5'' 38413) new_sock
     (''10.0.0.1'', 5000) ?sc =
   (SCTPBridge_init ''127.0.0.4'' 38412 ''127.0.0.5'' 38413, Crashed OSError, tcp ?l, Some (sctp ?l))"
    by simp
  with e show ?thesis
    by (simp add: new_sock_def)
qed

section \<open>Timeouts of the blocking calls\<close>

lemma sock_recv_logs:
  "timeout (fst (sock_recv s n r)) = timeout s \<and>
   waits (fst (sock_recv s n r)) = waits s @ [timeout s] \<and>
   closed (fst (sock_recv s n r)) = closed s"
  by (cases r) (simp_all add: sock_recv_def Let_def)

text \<open>
  \<^verbatim>\<open>handle_mock_amf\<close> of the bridge never calls \<^verbatim>\<open>settimeout\<close>: every one of its
  receives, and there is at least one, is made with the timeout the socket came with.
\<close>

lemma mock_loop_waits:
  "timeout (snd (mock_loop ticks conn)) = timeout conn \<and>
   (\<exists>n. waits (snd (mock_loop ticks conn)) = waits conn @ replicate n (timeout conn))"
proof (induction ticks arbitrary: conn)
  case Nil
  show ?case by simp
next
  case (Cons t ts)
  show ?case
  proof (cases "t_running t")
    case False
    then show ?thesis by simp
  next
    case True
    obtain conn1 r where rc: "sock_recv conn 4096 (t_recv t) = (conn1, r)"
      by (cases "sock_recv conn 4096 (t_recv t)")
    with sock_recv_logs [of conn 4096 "t_recv t"]
    have c1: "timeout conn1 = timeout conn" "waits conn1 = waits conn @ [timeout conn]"
      by simp_all
    have one: "\<exists>n. waits conn1 = waits conn @ replicate n (timeout conn)"
      using c1(2) by (intro exI [of _ 1]) simp
    from Cons.IH [of conn1] c1 obtain n
      where more: "timeout (snd (mock_loop ts conn1)) = timeout conn"
        "waits (snd (mock_loop ts conn1)) = waits conn @ replicate (Suc n) (timeout conn)"
      by (auto simp: replicate_append_same)
    then have more': "\<exists>n. waits (snd (mock_loop ts conn1)) = waits conn @ replicate n (timeout conn)"
      by blast
    from True rc c1 one more(1) more' show ?thesis
      by (cases r) (simp_all split: if_splits)
  qed
qed


lemma handle_mock_amf_waits:
  "timeout (snd (handle_mock_amf conn first reply ticks)) = timeout conn \<and>
   (\<exists>n. waits (snd (handle_mock_amf conn first reply ticks)) =
          waits conn @ replicate (Suc n) (timeout conn))"
proof -
  obtain conn1 r where rc: "sock_recv conn 4096 first = (conn1, r)"
    by (cases "sock_recv conn 4096 first")
  with sock_recv_logs [of conn 4096 first]
  have c1: "timeout conn1 = timeout conn" "waits conn1 = waits conn @ [timeout conn]"
    by simp_all
  have stop: "\<exists>n. waits conn1 = waits conn @ replicate (Suc n) (timeout conn)"
    using c1(2) by (intro exI [of _ 0]) simp
  show ?thesis
  proof (cases "\<exists>data conn2. r = Inr data \<and> data \<noteq> [] \<and>
                  sock_send conn1 create_mock_ng_setup_response reply = Inr conn2")
    case False
    with rc c1(1) stop show ?thesis
      by (cases r; cases "sock_send conn1 create_mock_ng_setup_response reply")
         (auto simp: handle_mock_amf_def)
  next
    case True
    then obtain data conn2 where d: "r = Inr data" "data \<noteq> []"
      and sn: "sock_send conn1 create_mock_ng_setup_response reply = Inr conn2"
      by blast
    from sn have c2: "timeout conn2 = timeout conn1" "waits conn2 = waits conn1"
      by (auto simp: sock_send_def split: send_result.splits)
    from mock_loop_waits [of ticks conn2] c2 c1 obtain n
      where "timeout (snd (mock_loop ticks conn2)) = timeout conn"
        "waits (snd (mock_loop ticks conn2)) = waits conn @ replicate (Suc n) (timeout conn)"
      by (auto simp: replicate_append_same)
    with rc d sn show ?thesis
      by (auto simp: handle_mock_amf_def)
  qed
qed

text \<open>
  In \<^verbatim>\<open>handle_ngap_connection\<close> every receive is made with the 5 seconds set just
  before it, and in the accept loop every \<^verbatim>\<open>accept\<close> with 1 second.
\<close>

lemma sock_send_logs:
  assumes "sock_send s b r = Inr s'"
  shows "waits s' = waits s \<and> timeout s' = timeout s"
  using assms by (auto simp: sock_send_def split: send_result.splits)

lemma handle_ng_setup_request_logs:
  assumes "handle_ng_setup_request conn data sr = Inr (conn2, c')"
  shows "waits conn2 = waits conn"
  using assms sock_send_logs
  by (fastforce simp: handle_ng_setup_request_def bind_err_def split: if_splits sum.splits)

lemma ngap_try_waits:
  "waits (snd (snd (ngap_try t c conn))) = waits conn @ [timeout conn]"
proof -
  obtain conn1 r where rc: "sock_recv conn 4096 (t_recv t) = (conn1, r)"
    by (cases "sock_recv conn 4096 (t_recv t)")
  with sock_recv_logs [of conn 4096 "t_recv t"]
  have c1: "waits conn1 = waits conn @ [timeout conn]"
    by simp
  show ?thesis
  proof (cases r)
    case (Inl e)
    with rc c1 show ?thesis by (simp add: ngap_try_def)
  next
    case (Inr data)
    show ?thesis
    proof (cases "handle_ng_setup_request conn1 data (t_send t)")
      case (Inl e)
      with rc c1 Inr show ?thesis
        by (simp add: ngap_try_def split: sum.splits option.splits)
    next
      case hr: (Inr p)
      obtain conn2 c' where p: "p = (conn2, c')" by (cases p)
      from handle_ng_setup_request_logs [of conn1 data "t_send t" conn2 c'] hr p
      have "waits conn2 = waits conn1" by simp
      with rc c1 Inr hr p show ?thesis
        by (simp add: ngap_try_def split: sum.splits option.splits)
    qed
  qed
qed

lemma ngap_iteration_waits:
  "waits (snd (snd (ngap_iteration t c conn))) = waits conn @ [Some 5]"
proof -
  obtain k c1 conn1 where tr: "ngap_try t c (settimeout conn 5) = (k, c1, conn1)"
    by (cases "ngap_try t c (settimeout conn 5)")
  with ngap_try_waits [of t c "settimeout conn 5"]
  have w: "waits conn1 = waits conn @ [Some 5]"
    by (simp add: settimeout_def)
  show ?thesis
  proof (cases "sock_send conn1 keepalive (t_send t)")
    case (Inl e)
    with tr w show ?thesis
      by (cases k) (simp_all add: ngap_iteration_def)
  next
    case (Inr conn2)
    with sock_send_logs [OF Inr] tr w show ?thesis
      by (cases k) (simp_all add: ngap_iteration_def)
  qed
qed

lemma ngap_loop_waits:
  "\<exists>n. waits (snd (snd (ngap_loop ticks c conn))) = waits conn @ replicate n (Some 5)"
proof (induction ticks arbitrary: c conn)
  case Nil
  show ?case by simp
next
  case (Cons t ts)
  show ?case
  proof (cases "t_running t")
    case False
    then show ?thesis by simp
  next
    case True
    obtain k c1 conn1 where it: "ngap_iteration t c conn = (k, c1, conn1)"
      by (cases "ngap_iteration t c conn")
    with ngap_iteration_waits [of t c conn] have w: "waits conn1 = waits conn @ [Some 5]"
      by simp
    then have one: "\<exists>n. waits conn1 = waits conn @ replicate n (Some 5)"
      by (intro exI [of _ 1]) simp
    from Cons.IH [of c1 conn1] w obtain n
      where "waits (snd (snd (ngap_loop ts c1 conn1))) = waits conn @ replicate (Suc n) (Some 5)"
      by (auto simp: replicate_append_same)
    then have more: "\<exists>n. waits (snd (snd (ngap_loop ts c1 conn1))) = waits conn @ replicate n (Some 5)"
      by blast
    from True it one more show ?thesis
      by (cases k) simp_all
  qed
qed

lemma accept_loop_waits:
  "\<exists>n. waits (snd (snd (accept_loop polls lsock))) = waits lsock @ replicate n (Some 1)"
proof (induction polls arbitrary: lsock)
  case Nil
  show ?case by simp
next
  case (Cons p ps)
  show ?case
  proof (cases "p_running p")
    case False
    then show ?thesis by simp
  next
    case True
    obtain out started l3
      where r: "accept_loop ps ((settimeout lsock 1)\<lparr>waits := waits lsock @ [Some 1]\<rparr>) = (out, started, l3)"
      by (cases "accept_loop ps ((settimeout lsock 1)\<lparr>waits := waits lsock @ [Some 1]\<rparr>)")
    from Cons.IH [of "(settimeout lsock 1)\<lparr>waits := waits lsock @ [Some 1]\<rparr>"] r obtain n
      where "waits l3 = waits lsock @ replicate (Suc n) (Some 1)"
      by (auto simp: replicate_append_same)
    then have "\<exists>n. waits l3 = waits lsock @ replicate n (Some 1)"
      by blast
    with True r show ?thesis
      by (simp add: accept_loop_step del: accept_loop.simps)
  qed
qed

text \<open>
  Claim C5 says that every receive on a connection socket in MOCK mode is bounded by a
  5-second timeout and that no receive can block without bound. In the mock handler of
  the bridge a peer sends its first message and one more byte: both receives (lines
  103 and 116) are made on the accepted socket in blocking mode, with no timeout,
  although line 120 handles \<^verbatim>\<open>socket.timeout\<close>. The same two messages in
  \<^verbatim>\<open>MockAMF.handle_ngap_connection\<close> are each received with the 5 seconds of line 125.
\<close>

theorem mock_mode_recv_unbounded:
  "handle_mock_amf new_sock (RecvData [0x00, 0x15, 0x00, 0x00, 0x00]) SendOk
     [\<lparr>t_running = True, t_recv = RecvData [0x01], t_send = SendOk\<rparr>] =
   (Pending,
    new_sock\<lparr>waits := [None, None], rcvd := [[0x00, 0x15, 0x00, 0x00, 0x00], [0x01]],
             sent := [create_mock_ng_setup_response]\<rparr>) \<and>
   timeout new_sock = None \<and>
   waits (snd (snd (ngap_loop
     [\<lparr>t_running = True, t_recv = RecvData [0x00, 0x15, 0x00, 0x00, 0x00], t_send = SendOk\<rparr>,
      \<lparr>t_running = True, t_recv = RecvData [0x01], t_send = SendOk\<rparr>] False new_sock))) =
   [Some 5, Some 5]"
proof -
  have "handle_mock_amf new_sock (RecvData [0x00, 0x15, 0x00, 0x00, 0x00]) SendOk
     [\<lparr>t_running = True, t_recv = RecvData [0x01], t_send = SendOk\<rparr>] =
   (Pending,
    new_sock\<lparr>waits := [None, None], rcvd := [[0x00, 0x15, 0x00, 0x00, 0x00], [0x01]],
             sent := [create_mock_ng_setup_response]\<rparr>)"
    by (simp add: handle_mock_amf_def sock_recv_def sock_send_def Let_def new_sock_def)
  moreover have "waits (snd (snd (ngap_loop
     [\<lparr>t_running = True, t_recv = RecvData [0x00, 0x15, 0x00, 0x00, 0x00], t_send = SendOk\<rparr>,
      \<lparr>t_running = True, t_recv = RecvData [0x01], t_send = SendOk\<rparr>] False new_sock))) =
   [Some 5, Some 5]"
    by (simp add: ngap_iteration_def ngap_try_def sock_recv_def Let_def new_sock_def settimeout_def
        decode_header_long NG_SETUP_REQUEST_def)
  ultimately show ?thesis
    by (simp add: new_sock_def)
qed

end
